theory Spec2Isabelle
  imports Main "HOL-Library.Word" "HOL-Library.Signed_Division"
begin

section \<open>Build-time constants\<close>

text \<open>
  The headers \<^verbatim>\<open>disk.h\<close>, \<^verbatim>\<open>filehdr.h\<close>, \<^verbatim>\<open>directory.h\<close> and \<^verbatim>\<open>filesys.h\<close> are
  not among the sources, so the constants they define are parameters of the model.
  The derived constants follow section 3 of the specification.
\<close>

record params =
  SectorSize :: nat
  NumSectors :: nat
  NumDirect :: nat
  NumDirEntries :: nat
  FileNameMaxLen :: nat
  MAXFILENUM :: nat

definition MaxFileSize :: "params \<Rightarrow> int" where
  \<comment> \<open>Modelled from the spec: \<^verbatim>\<open>MaxFileSize = NumDirect * SectorSize\<close>.\<close>
  "MaxFileSize P = int (NumDirect P * SectorSize P)"

definition FreeMapSector :: int where
  "FreeMapSector = 0"

definition DirectorySector :: int where
  "DirectorySector = 1"

section \<open>Outcomes of a call\<close>

text \<open>
  A call returns normally (\<open>Ok\<close>), stops the machine (\<open>Abort\<close>: a failed \<^verbatim>\<open>ASSERT\<close>, a
  null dereference, an access outside an array, a signed overflow) or does not return
  (\<open>Diverge\<close>: the recursion bound of the model is used up).
\<close>

datatype error =
    AssertFailed
  | NullDeref
  | OutOfBounds
  | SignedOverflow

datatype 'a res = Ok 'a | Abort error | Diverge

fun bnd :: "'a res \<Rightarrow> ('a \<Rightarrow> 'b res) \<Rightarrow> 'b res" where
  "bnd (Ok x) f = f x"
| "bnd (Abort e) f = Abort e"
| "bnd Diverge f = Diverge"

lemma bnd_cong [fundef_cong]:
  "m = m' \<Longrightarrow> (\<And>x. m' = Ok x \<Longrightarrow> f x = f' x) \<Longrightarrow> bnd m f = bnd m' f'"
  by (cases m') auto

section \<open>Integers of the machine\<close>

definition INT_MIN :: int where
  "INT_MIN = - (2 ^ 31)"

definition INT_MAX :: int where
  "INT_MAX = 2 ^ 31 - 1"

definition is_int32 :: "int \<Rightarrow> bool" where
  "is_int32 n = (INT_MIN \<le> n \<and> n \<le> INT_MAX)"

definition divRoundUp :: "int \<Rightarrow> int \<Rightarrow> int" where
  \<comment> \<open>The macro \<^verbatim>\<open>(((n) + (s) - 1) / (s))\<close>; the division of C truncates towards zero.\<close>
  "divRoundUp n s = (n + s - 1) sdiv s"

section \<open>The free-sector bitmap\<close>

text \<open>
  Modelled from the spec: the classes \<^verbatim>\<open>Bitmap\<close> and \<^verbatim>\<open>PersistentBitmap\<close> are not among
  the sources. Section 4.1: one bit per sector; \<^verbatim>\<open>Mark\<close>, \<^verbatim>\<open>Clear\<close> and \<^verbatim>\<open>Test\<close> fail on a
  sector out of range; \<^verbatim>\<open>FindAndSet\<close> returns the smallest free sector and marks it, or
  returns \<open>-1\<close> when none is free; \<^verbatim>\<open>NumClear\<close> counts the free bits.
\<close>

type_synonym Bitmap = "bool list"

definition in_range :: "Bitmap \<Rightarrow> int \<Rightarrow> bool" where
  "in_range m which = (0 \<le> which \<and> which < int (length m))"

definition Mark :: "Bitmap \<Rightarrow> int \<Rightarrow> Bitmap res" where
  \<comment> \<open>Modelled from the spec: \<^verbatim>\<open>Bitmap::Mark\<close> (section 4.1), not among the sources.\<close>
  "Mark m which = (if in_range m which then Ok (m[nat which := True]) else Abort AssertFailed)"

definition Clear :: "Bitmap \<Rightarrow> int \<Rightarrow> Bitmap res" where
  \<comment> \<open>Modelled from the spec: \<^verbatim>\<open>Bitmap::Clear\<close> (section 4.1), not among the sources.\<close>
  "Clear m which = (if in_range m which then Ok (m[nat which := False]) else Abort AssertFailed)"

definition Test :: "Bitmap \<Rightarrow> int \<Rightarrow> bool res" where
  \<comment> \<open>Modelled from the spec: \<^verbatim>\<open>Bitmap::Test\<close> (section 4.1), not among the sources.\<close>
  "Test m which = (if in_range m which then Ok (m ! nat which) else Abort AssertFailed)"

fun first_clear :: "Bitmap \<Rightarrow> nat option" where
  "first_clear [] = None"
| "first_clear (b # bs) = (if b then map_option Suc (first_clear bs) else Some 0)"

definition FindAndSet :: "Bitmap \<Rightarrow> int \<times> Bitmap" where
  \<comment> \<open>Modelled from the spec: \<^verbatim>\<open>Bitmap::FindAndSet\<close> (section 4.1), not among the sources.\<close>
  "FindAndSet m = (case first_clear m of None \<Rightarrow> (- 1, m) | Some i \<Rightarrow> (int i, m[i := True]))"

definition NumClear :: "Bitmap \<Rightarrow> int" where
  \<comment> \<open>Modelled from the spec: \<^verbatim>\<open>Bitmap::NumClear\<close> (section 4.1), not among the sources.\<close>
  "NumClear m = int (length (filter Not m))"

section \<open>The disk\<close>

text \<open>
  Modelled from the spec: the class \<^verbatim>\<open>SynchDisk\<close> is not among the sources. Section 6:
  sectors are read and written whole, and a sector number out of range is fatal.
  A disk is the list of its sectors, a sector the list of its bytes.
\<close>

type_synonym byte = "8 word"
type_synonym disk = "byte list list"

definition ReadSector :: "disk \<Rightarrow> int \<Rightarrow> byte list res" where
  \<comment> \<open>Modelled from the spec: \<^verbatim>\<open>SynchDisk::ReadSector\<close> (section 6), not among the sources.\<close>
  "ReadSector d s = (if 0 \<le> s \<and> s < int (length d) then Ok (d ! nat s) else Abort AssertFailed)"

definition WriteSector :: "disk \<Rightarrow> int \<Rightarrow> byte list \<Rightarrow> disk res" where
  \<comment> \<open>Modelled from the spec: \<^verbatim>\<open>SynchDisk::WriteSector\<close> (section 6), not among the sources.\<close>
  "WriteSector d s buf =
     (if 0 \<le> s \<and> s < int (length d) then Ok (d[nat s := buf]) else Abort AssertFailed)"

section \<open>The file header\<close>

datatype FileHeader = FileHeader
  (numBytes: int)
  (numSectors: int)
  (dataSectors: "int list")
  (nextFileHeader: "FileHeader option")
  (nextFileHeaderSector: int)

definition new_FileHeader :: "params \<Rightarrow> FileHeader" where
  \<comment> \<open>The constructor \<^verbatim>\<open>FileHeader::FileHeader\<close>.\<close>
  "new_FileHeader P = FileHeader (- 1) (- 1) (replicate (NumDirect P) (- 1)) None (- 1)"

subsection \<open>Allocate\<close>

text \<open>
  The loop \<^verbatim>\<open>for (i = 0; i < numSectors; i++)\<close> of \<^verbatim>\<open>Allocate\<close>: the first argument counts
  the iterations that remain, \<open>i\<close> is the index. Each iteration takes a sector from the map,
  stores it in \<^verbatim>\<open>dataSectors[i]\<close>, asserts that it is not negative and writes a sector of
  zero bytes there.
\<close>

fun Allocate_loop ::
  "nat \<Rightarrow> params \<Rightarrow> nat \<Rightarrow> Bitmap \<Rightarrow> disk \<Rightarrow> int list \<Rightarrow> (Bitmap \<times> disk \<times> int list) res" where
  "Allocate_loop 0 P i freeMap d ds = Ok (freeMap, d, ds)"
| "Allocate_loop (Suc k) P i freeMap d ds =
     (case FindAndSet freeMap of (s, freeMap') \<Rightarrow>
        if length ds \<le> i then Abort OutOfBounds
        else if \<not> 0 \<le> s then Abort AssertFailed
        else bnd (WriteSector d s (replicate (SectorSize P) 0))
               (\<lambda>d'. Allocate_loop k P (Suc i) freeMap' d' (ds[i := s])))"

text \<open>
  \<^verbatim>\<open>FileHeader::Allocate\<close> on the header \<open>h\<close>. The result is the returned \<^verbatim>\<open>int\<close>, the header
  as the call leaves it, the map and the disk. The subtraction
  \<^verbatim>\<open>file_size - max_file_size\<close> is a signed overflow below \<open>INT_MIN\<close>.
\<close>

function Allocate ::
  "params \<Rightarrow> FileHeader \<Rightarrow> Bitmap \<Rightarrow> disk \<Rightarrow> int \<Rightarrow> (int \<times> FileHeader \<times> Bitmap \<times> disk) res" where
  "Allocate P h freeMap d fileSize =
     (let file_size = fileSize;
          max_file_size = MaxFileSize P;
          nb = (if file_size > max_file_size then max_file_size else file_size);
          ns = divRoundUp nb (int (SectorSize P))
      in if NumClear freeMap < ns
         then Ok (0, FileHeader nb ns (dataSectors h) (nextFileHeader h) (nextFileHeaderSector h),
                  freeMap, d)
         else
           bnd (Allocate_loop (nat ns) P 0 freeMap d (dataSectors h))
             (\<lambda>(freeMap1, d1, ds).
                if file_size - max_file_size < INT_MIN then Abort SignedOverflow
                else if file_size - max_file_size > 0 then
                  (case FindAndSet freeMap1 of (s, freeMap2) \<Rightarrow>
                     if \<not> 0 \<le> s then Abort AssertFailed
                     else
                       bnd (Allocate P (new_FileHeader P) freeMap2 d1 (file_size - max_file_size))
                         (\<lambda>(r, h', freeMap3, d3).
                            Ok (int (SectorSize P) + r, FileHeader nb ns ds (Some h') s, freeMap3, d3)))
                else Ok (int (SectorSize P), FileHeader nb ns ds (nextFileHeader h)
                           (nextFileHeaderSector h), freeMap1, d1)))"
  by pat_completeness auto

text \<open>
  Each recursive call of \<^verbatim>\<open>Allocate\<close> follows a successful \<^verbatim>\<open>FindAndSet\<close>, so the number
  of free sectors decreases: the recursion ends whatever the constants are.
\<close>

lemma first_clear_Some:
  "first_clear m = Some i \<Longrightarrow> i < length m \<and> \<not> m ! i \<and> (\<forall>j<i. m ! j)"
proof (induction m arbitrary: i)
  case Nil
  then show ?case by simp
next
  case (Cons b bs)
  show ?case
  proof (cases b)
    case True
    with Cons.prems obtain k where k: "first_clear bs = Some k" "i = Suc k"
      by auto
    from Cons.IH [OF k(1)] k(2) True show ?thesis
      by (auto simp: nth_Cons split: nat.splits)
  next
    case False
    with Cons.prems show ?thesis by simp
  qed
qed

lemma NumClear_nonneg: "0 \<le> NumClear m"
  by (simp add: NumClear_def)

lemma first_clear_None: "first_clear m = None \<Longrightarrow> filter Not m = []"
  by (induction m) (auto split: if_splits)

lemma filter_Not_set:
  "i < length m \<Longrightarrow> \<not> m ! i \<Longrightarrow> Suc (length (filter Not (m[i := True]))) = length (filter Not m)"
proof (induction m arbitrary: i)
  case Nil
  then show ?case by simp
next
  case (Cons b bs)
  then show ?case by (cases i) auto
qed

lemma FindAndSet_found:
  assumes "FindAndSet m = (s, m')" and "0 \<le> s"
  shows "NumClear m' = NumClear m - 1" and "length m' = length m" and "s < int (length m)"
    and "\<not> m ! nat s" and "m' = m[nat s := True]"
proof -
  from assms obtain i where fc: "first_clear m = Some i"
    by (cases "first_clear m") (auto simp: FindAndSet_def)
  with assms have s: "s = int i" and m': "m' = m[i := True]"
    by (simp_all add: FindAndSet_def)
  from first_clear_Some [OF fc] have i: "i < length m" "\<not> m ! i" by simp_all
  from filter_Not_set [OF i] show "NumClear m' = NumClear m - 1"
    using s m' i by (simp add: NumClear_def)
  show "length m' = length m" "s < int (length m)" "\<not> m ! nat s" "m' = m[nat s := True]"
    using s m' i by simp_all
qed

lemma FindAndSet_none:
  assumes "FindAndSet m = (s, m')" and "\<not> 0 \<le> s"
  shows "NumClear m = 0 \<and> m' = m \<and> s = - 1"
  using assms by (auto simp: FindAndSet_def NumClear_def first_clear_None split: option.splits)

lemma Allocate_loop_NumClear:
  "Allocate_loop k P i m d ds = Ok (m', d', ds') \<Longrightarrow> NumClear m' = NumClear m - int k"
proof (induction k arbitrary: i m d ds)
  case 0
  then show ?case by simp
next
  case (Suc k)
  obtain s m1 where fs: "FindAndSet m = (s, m1)" by (cases "FindAndSet m")
  from Suc.prems fs have s: "0 \<le> s" and i: "i < length ds"
    by (auto split: if_splits)
  from Suc.prems fs s i obtain d1 where
    w: "WriteSector d s (replicate (SectorSize P) 0) = Ok d1" and
    r: "Allocate_loop k P (Suc i) m1 d1 (ds[i := s]) = Ok (m', d', ds')"
    by (cases "WriteSector d s (replicate (SectorSize P) 0)") auto
  from Suc.IH [OF r] FindAndSet_found(1) [OF fs s] show ?case by simp
qed

termination Allocate
proof (relation "measure (\<lambda>(P, h, m, d, n). nat (NumClear m))", goal_cases)
  case 1
  show ?case by simp
next
  case (2 P h freeMap d fileSize file_size max_file_size nb ns x freeMap1 y d1 ds z freeMap2)
  from 2 have loop: "Allocate_loop (nat ns) P 0 freeMap d (dataSectors h) = Ok (freeMap1, d1, ds)"
    by simp
  from 2 have fs: "FindAndSet freeMap1 = (z, freeMap2)" and z: "0 \<le> z"
    by simp_all
  have "NumClear freeMap2 < NumClear freeMap"
    using Allocate_loop_NumClear [OF loop] FindAndSet_found(1) [OF fs z] by simp
  with NumClear_nonneg [of freeMap2] show ?case by simp
qed

subsection \<open>The image of a header in its sector\<close>

text \<open>
  An \<^verbatim>\<open>int\<close> is four bytes (\<^verbatim>\<open>sizeof(int)\<close>), copied by \<^verbatim>\<open>memcpy\<close> in the byte order of the
  host; the model fixes the least significant byte first. \<open>bytes_int\<close> reads the bytes back
  as a two's complement number.
\<close>

definition int_bytes :: "int \<Rightarrow> byte list" where
  "int_bytes n =
     [word_of_int n, word_of_int (n div 256), word_of_int (n div 65536),
      word_of_int (n div 16777216)]"

definition bytes_int :: "byte list \<Rightarrow> int" where
  "bytes_int bs =
     (let u = foldr (\<lambda>b acc. uint b + 256 * acc) bs 0
      in if 2 ^ 31 \<le> u then u - 2 ^ 32 else u)"

definition int_at :: "byte list \<Rightarrow> nat \<Rightarrow> int" where
  \<comment> \<open>The \<^verbatim>\<open>int\<close> at a byte offset of a buffer.\<close>
  "int_at buf off = bytes_int (take 4 (drop off buf))"

definition header_size :: "params \<Rightarrow> nat" where
  \<comment> \<open>The three scalar fields and the \<^verbatim>\<open>NumDirect\<close> sector numbers.\<close>
  "header_size P = 3 * 4 + NumDirect P * 4"

subsection \<open>Deallocate\<close>

text \<open>
  The loop of \<^verbatim>\<open>Deallocate\<close>: each sector of the table must be marked, and is cleared.
\<close>

fun Deallocate_loop :: "nat \<Rightarrow> nat \<Rightarrow> int list \<Rightarrow> Bitmap \<Rightarrow> Bitmap res" where
  "Deallocate_loop 0 i ds freeMap = Ok freeMap"
| "Deallocate_loop (Suc k) i ds freeMap =
     (if length ds \<le> i then Abort OutOfBounds
      else bnd (Test freeMap (ds ! i))
             (\<lambda>marked. if \<not> marked then Abort AssertFailed
                else bnd (Clear freeMap (ds ! i)) (\<lambda>freeMap'. Deallocate_loop k (Suc i) ds freeMap')))"

fun Deallocate :: "FileHeader \<Rightarrow> Bitmap \<Rightarrow> Bitmap res" where
  "Deallocate (FileHeader nb ns ds nxt nsec) freeMap =
     bnd (Deallocate_loop (nat ns) 0 ds freeMap)
       (\<lambda>freeMap'. case nxt of None \<Rightarrow> Ok freeMap' | Some h' \<Rightarrow> Deallocate h' freeMap')"

subsection \<open>FetchFrom and WriteBack\<close>

text \<open>
  \<^verbatim>\<open>FetchFrom\<close> follows the sector numbers it reads from the disk, so nothing bounds its
  recursion: the first argument of the model is the number of headers it may still read,
  and the call does not return when that is used up. The header \<open>h\<close> is the object the
  method is called on; a successor is a new header.
\<close>

fun FetchFrom :: "nat \<Rightarrow> params \<Rightarrow> FileHeader \<Rightarrow> disk \<Rightarrow> int \<Rightarrow> FileHeader res" where
  "FetchFrom 0 P h d sector = Diverge"
| "FetchFrom (Suc n) P h d sector =
     bnd (ReadSector d sector)
       (\<lambda>buf.
          if SectorSize P < header_size P then Abort OutOfBounds
          else
            let nb = int_at buf 0;
                ns = int_at buf 4;
                nsec = int_at buf 8;
                ds = map (\<lambda>i. int_at buf (12 + 4 * i)) [0..<NumDirect P]
            in if nsec \<noteq> - 1
               then bnd (FetchFrom n P (new_FileHeader P) d nsec)
                      (\<lambda>h'. Ok (FileHeader nb ns ds (Some h') nsec))
               else Ok (FileHeader nb ns ds (nextFileHeader h) nsec))"

text \<open>
  \<^verbatim>\<open>WriteBack\<close>: the buffer is a local array of \<^verbatim>\<open>SectorSize\<close> bytes that the source does
  not initialise; the bytes behind the header are zero in the model, and nothing reads
  them.
\<close>

fun WriteBack :: "params \<Rightarrow> FileHeader \<Rightarrow> disk \<Rightarrow> int \<Rightarrow> disk res" where
  "WriteBack P (FileHeader nb ns ds nxt nsec) d sector =
     (if SectorSize P < header_size P then Abort OutOfBounds
      else
        let image = int_bytes nb @ int_bytes ns @ int_bytes nsec @ concat (map int_bytes ds);
            buf = image @ replicate (SectorSize P - length image) 0
        in bnd (WriteSector d sector buf)
             (\<lambda>d1. if nsec \<noteq> - 1
                then (case nxt of None \<Rightarrow> Abort NullDeref | Some h' \<Rightarrow> WriteBack P h' d1 nsec)
                else Ok d1))"

subsection \<open>ByteToSector and FileLength\<close>

fun ByteToSector :: "params \<Rightarrow> FileHeader \<Rightarrow> int \<Rightarrow> int res" where
  "ByteToSector P (FileHeader nb ns ds nxt nsec) offset =
     (let sector = offset sdiv int (SectorSize P)
      in if sector < int (NumDirect P)
         then (if 0 \<le> sector \<and> nat sector < length ds then Ok (ds ! nat sector)
               else Abort OutOfBounds)
         else (case nxt of None \<Rightarrow> Abort NullDeref
               | Some h' \<Rightarrow> ByteToSector P h' (offset - MaxFileSize P)))"

fun FileLength :: "FileHeader \<Rightarrow> int" where
  "FileLength (FileHeader nb ns ds nxt nsec) =
     (case nxt of None \<Rightarrow> nb | Some h' \<Rightarrow> nb + FileLength h')"

section \<open>Open files\<close>

text \<open>
  Modelled from the spec: the class \<^verbatim>\<open>OpenFile\<close> is not among the sources. Sections 2 and 3:
  an open file is an in-memory cursor over one inode chain, read from the header sector when
  the file is opened, and gives byte-level reads and writes over that chain; a transfer is cut
  at the end of the file. The sectors are found with \<^verbatim>\<open>ByteToSector\<close>.
\<close>

record OpenFile =
  hdr :: FileHeader
  seekPosition :: int

definition new_OpenFile :: "nat \<Rightarrow> params \<Rightarrow> disk \<Rightarrow> int \<Rightarrow> OpenFile res" where
  \<comment> \<open>Modelled from the spec: the constructor \<^verbatim>\<open>OpenFile(sector)\<close> (section 3), not among the sources.\<close>
  "new_OpenFile fuel P d sector =
     bnd (FetchFrom fuel P (new_FileHeader P) d sector)
       (\<lambda>h. Ok \<lparr>hdr = h, seekPosition = 0\<rparr>)"

fun read_sectors :: "params \<Rightarrow> FileHeader \<Rightarrow> disk \<Rightarrow> nat list \<Rightarrow> byte list res" where
  "read_sectors P h d [] = Ok []"
| "read_sectors P h d (i # js) =
     bnd (ByteToSector P h (int (i * SectorSize P)))
       (\<lambda>s. bnd (ReadSector d s)
          (\<lambda>buf. bnd (read_sectors P h d js) (\<lambda>rest. Ok (buf @ rest))))"

fun write_sectors :: "params \<Rightarrow> FileHeader \<Rightarrow> disk \<Rightarrow> nat list \<Rightarrow> byte list \<Rightarrow> disk res" where
  "write_sectors P h d [] buf = Ok d"
| "write_sectors P h d (i # js) buf =
     bnd (ByteToSector P h (int (i * SectorSize P)))
       (\<lambda>s. bnd (WriteSector d s (take (SectorSize P) buf))
          (\<lambda>d'. write_sectors P h d' js (drop (SectorSize P) buf)))"

definition ReadAt :: "params \<Rightarrow> OpenFile \<Rightarrow> disk \<Rightarrow> int \<Rightarrow> int \<Rightarrow> byte list res" where
  \<comment> \<open>Modelled from the spec: \<^verbatim>\<open>OpenFile::ReadAt\<close> (sections 2 and 6), not among the sources.\<close>
  "ReadAt P f d nbytes position =
     (let fileLength = FileLength (hdr f)
      in if nbytes \<le> 0 \<or> position < 0 \<or> fileLength \<le> position then Ok []
         else
           let n = nat (if fileLength < position + nbytes then fileLength - position
                        else nbytes);
               pos = nat position;
               firstSector = pos div SectorSize P;
               lastSector = (pos + n - 1) div SectorSize P
           in bnd (read_sectors P (hdr f) d [firstSector..<Suc lastSector])
                (\<lambda>buf. Ok (take n (drop (pos - firstSector * SectorSize P) buf))))"

definition WriteAt :: "params \<Rightarrow> OpenFile \<Rightarrow> disk \<Rightarrow> byte list \<Rightarrow> int \<Rightarrow> disk res" where
  \<comment> \<open>Modelled from the spec: \<^verbatim>\<open>OpenFile::WriteAt\<close> (sections 2 and 6), not among the sources.\<close>
  "WriteAt P f d from position =
     (let fileLength = FileLength (hdr f);
          nbytes = int (length from)
      in if nbytes \<le> 0 \<or> position < 0 \<or> fileLength \<le> position then Ok d
         else
           let n = nat (if fileLength < position + nbytes then fileLength - position
                        else nbytes);
               pos = nat position;
               firstSector = pos div SectorSize P;
               lastSector = (pos + n - 1) div SectorSize P;
               off = pos - firstSector * SectorSize P
           in bnd (read_sectors P (hdr f) d [firstSector..<Suc lastSector])
                (\<lambda>old. write_sectors P (hdr f) d [firstSector..<Suc lastSector]
                          (take off old @ take n from @ drop (off + n) old)))"

section \<open>The bitmap as a file\<close>

text \<open>
  Modelled from the spec: section 6, the bits of the map are packed into bytes, the least
  significant bit first, and the file has \<open>ceil(NumSectors / 8)\<close> bytes.
\<close>

definition bits_byte :: "bool list \<Rightarrow> byte" where
  "bits_byte bs = foldr (\<lambda>b acc. of_bool b + 2 * acc) bs 0"

definition bits_bytes :: "Bitmap \<Rightarrow> byte list" where
  "bits_bytes m = map (\<lambda>k. bits_byte (take 8 (drop (8 * k) m))) [0..<(length m + 7) div 8]"

definition bytes_bits :: "nat \<Rightarrow> byte list \<Rightarrow> Bitmap" where
  "bytes_bits n bytes =
     map (\<lambda>i. if i div 8 < length bytes then bit (bytes ! (i div 8)) (i mod 8) else False) [0..<n]"

definition FreeMapFileSize :: "params \<Rightarrow> int" where
  \<comment> \<open>Modelled from the spec: \<^verbatim>\<open>FreeMapFileSize\<close> (section 6), defined in a header that is not among the sources.\<close>
  "FreeMapFileSize P = int ((NumSectors P + 7) div 8)"

definition new_PersistentBitmap :: "params \<Rightarrow> OpenFile \<Rightarrow> disk \<Rightarrow> nat \<Rightarrow> Bitmap res" where
  \<comment> \<open>Modelled from the spec: the constructor \<^verbatim>\<open>PersistentBitmap(file, numItems)\<close>, which reads
      the map from its file (section 4.1), not among the sources.\<close>
  "new_PersistentBitmap P f d numItems =
     bnd (ReadAt P f d (int ((numItems + 7) div 8)) 0) (\<lambda>bytes. Ok (bytes_bits numItems bytes))"

definition PersistentBitmap_WriteBack :: "params \<Rightarrow> Bitmap \<Rightarrow> OpenFile \<Rightarrow> disk \<Rightarrow> disk res" where
  \<comment> \<open>Modelled from the spec: \<^verbatim>\<open>PersistentBitmap::WriteBack\<close> (section 4.1), not among the sources.\<close>
  "PersistentBitmap_WriteBack P m f d = WriteAt P f d (bits_bytes m) 0"

section \<open>Directories\<close>

text \<open>
  Modelled from the spec: the class \<^verbatim>\<open>Directory\<close> is not among the sources. Section 3: an
  entry has the fields \<^verbatim>\<open>inUse\<close>, \<^verbatim>\<open>isDir\<close>, \<^verbatim>\<open>sector\<close> and \<^verbatim>\<open>name\<close>, a directory is a table of
  \<^verbatim>\<open>NumDirEntries\<close> entries. Section 4.3: \<^verbatim>\<open>Find\<close> returns the sector of the entry in use
  with the name, or \<open>-1\<close>; \<^verbatim>\<open>IsDir\<close> says whether that entry is a directory; \<^verbatim>\<open>Add\<close> fills the
  first entry not in use and fails when the name is present or the table is full;
  \<^verbatim>\<open>Remove\<close> clears \<^verbatim>\<open>inUse\<close> on the entry with the name. Names are compared byte by byte,
  and their length is bounded by the record: both keep \<^verbatim>\<open>FileNameMaxLen\<close> characters.
  Section 6: the file holds the records one after the other, each the two flags as a byte
  each, the sector as an \<^verbatim>\<open>int\<close> and the name padded with zero bytes.
\<close>

record DirectoryEntry =
  inUse :: bool
  isDir :: bool
  sector :: int
  name :: string

type_synonym Directory = "DirectoryEntry list"

definition DirectoryEntry_size :: "params \<Rightarrow> nat" where
  \<comment> \<open>Modelled from the spec: the size of a directory record (section 6); \<^verbatim>\<open>directory.h\<close> is not among the sources.\<close>
  "DirectoryEntry_size P = 2 + 4 + (FileNameMaxLen P + 1)"

definition DirectoryFileSize :: "params \<Rightarrow> int" where
  \<comment> \<open>Modelled from the spec: \<^verbatim>\<open>DirectoryFileSize\<close> (section 4.5), defined in a header that is not among the sources.\<close>
  "DirectoryFileSize P = int (DirectoryEntry_size P * NumDirEntries P)"

definition new_Directory :: "nat \<Rightarrow> Directory" where
  \<comment> \<open>Modelled from the spec: the constructor \<^verbatim>\<open>Directory(size)\<close> (section 4.3), not among the sources.\<close>
  "new_Directory n = replicate n \<lparr>inUse = False, isDir = False, sector = 0, name = []\<rparr>"

definition same_name :: "params \<Rightarrow> string \<Rightarrow> string \<Rightarrow> bool" where
  "same_name P a b = (take (FileNameMaxLen P) a = take (FileNameMaxLen P) b)"

fun FindIndex_from :: "params \<Rightarrow> Directory \<Rightarrow> string \<Rightarrow> nat \<Rightarrow> int" where
  "FindIndex_from P [] nm i = - 1"
| "FindIndex_from P (e # es) nm i =
     (if inUse e \<and> same_name P (name e) nm then int i else FindIndex_from P es nm (Suc i))"

definition FindIndex :: "params \<Rightarrow> Directory \<Rightarrow> string \<Rightarrow> int" where
  "FindIndex P table nm = FindIndex_from P table nm 0"

definition Directory_Find :: "params \<Rightarrow> Directory \<Rightarrow> string \<Rightarrow> int" where
  \<comment> \<open>Modelled from the spec: \<^verbatim>\<open>Directory::Find\<close> (section 4.3), not among the sources.\<close>
  "Directory_Find P table nm =
     (let i = FindIndex P table nm in if i \<noteq> - 1 then sector (table ! nat i) else - 1)"

definition Directory_IsDir :: "params \<Rightarrow> Directory \<Rightarrow> string \<Rightarrow> bool" where
  \<comment> \<open>Modelled from the spec: \<^verbatim>\<open>Directory::IsDir\<close> (section 4.3), not among the sources.\<close>
  "Directory_IsDir P table nm =
     (let i = FindIndex P table nm in if i \<noteq> - 1 then isDir (table ! nat i) else False)"

fun first_free :: "Directory \<Rightarrow> nat option" where
  "first_free [] = None"
| "first_free (e # es) = (if inUse e then map_option Suc (first_free es) else Some 0)"

definition Directory_Add ::
  "params \<Rightarrow> Directory \<Rightarrow> string \<Rightarrow> int \<Rightarrow> bool \<Rightarrow> bool \<times> Directory" where
  \<comment> \<open>Modelled from the spec: \<^verbatim>\<open>Directory::Add\<close> (section 4.3), not among the sources.\<close>
  "Directory_Add P table nm newSector dir =
     (if FindIndex P table nm \<noteq> - 1 then (False, table)
      else case first_free table of
             None \<Rightarrow> (False, table)
           | Some i \<Rightarrow>
               (True, table[i := \<lparr>inUse = True, isDir = dir, sector = newSector,
                                  name = take (FileNameMaxLen P) nm\<rparr>]))"

definition Directory_Remove :: "params \<Rightarrow> Directory \<Rightarrow> string \<Rightarrow> bool \<times> Directory" where
  \<comment> \<open>Modelled from the spec: \<^verbatim>\<open>Directory::Remove\<close> (section 4.3), not among the sources.\<close>
  "Directory_Remove P table nm =
     (let i = FindIndex P table nm
      in if i = - 1 then (False, table)
         else (True, table[nat i := (table ! nat i)\<lparr>inUse := False\<rparr>]))"

definition encode_entry :: "params \<Rightarrow> DirectoryEntry \<Rightarrow> byte list" where
  "encode_entry P e =
     (let nm = map of_char (take (FileNameMaxLen P) (name e))
      in [of_bool (inUse e), of_bool (isDir e)] @ int_bytes (sector e)
         @ nm @ replicate (FileNameMaxLen P + 1 - length nm) 0)"

definition decode_entry :: "params \<Rightarrow> byte list \<Rightarrow> DirectoryEntry" where
  "decode_entry P bs =
     \<lparr>inUse = (take 1 bs \<noteq> [0]), isDir = (take 1 (drop 1 bs) \<noteq> [0]), sector = int_at bs 2,
      name = map (\<lambda>b. char_of (unat b)) (takeWhile (\<lambda>b. b \<noteq> 0) (take (FileNameMaxLen P) (drop 6 bs)))\<rparr>"

definition Directory_FetchFrom :: "params \<Rightarrow> Directory \<Rightarrow> OpenFile \<Rightarrow> disk \<Rightarrow> Directory res" where
  \<comment> \<open>Modelled from the spec: \<^verbatim>\<open>Directory::FetchFrom\<close> (section 4.3), not among the sources. An
      entry that the bytes of the file do not cover keeps its value.\<close>
  "Directory_FetchFrom P table f d =
     (let sz = DirectoryEntry_size P
      in bnd (ReadAt P f d (int (length table * sz)) 0)
           (\<lambda>bytes. Ok (map (\<lambda>i. if (i + 1) * sz \<le> length bytes
                                    then decode_entry P (take sz (drop (i * sz) bytes))
                                    else table ! i) [0..<length table])))"

definition Directory_WriteBack :: "params \<Rightarrow> Directory \<Rightarrow> OpenFile \<Rightarrow> disk \<Rightarrow> disk res" where
  \<comment> \<open>Modelled from the spec: \<^verbatim>\<open>Directory::WriteBack\<close> (section 4.3), not among the sources.\<close>
  "Directory_WriteBack P table f d = WriteAt P f d (concat (map (encode_entry P) table)) 0"

section \<open>The file system\<close>

text \<open>
  The state of a \<^verbatim>\<open>FileSystem\<close>: the disk behind \<^verbatim>\<open>kernel->synchDisk\<close>, the two files kept
  open, the table of open files and their number. A slot of the table holds \<open>None\<close> for
  \<^verbatim>\<open>NULL\<close>. The declaration of the table is in \<^verbatim>\<open>filesys.h\<close>, which is not among the sources:
  the model gives every index a slot, and a slot that no code has written holds whatever
  the memory held before.
\<close>

record FileSystem =
  synchDisk :: disk
  freeMapFile :: OpenFile
  directoryFile :: OpenFile
  fileDescriptorTable :: "nat \<Rightarrow> OpenFile option"
  openedNum :: int

text \<open>
  The constructor. \<open>d\<close> is the disk as it is found and \<open>memory\<close> the content of the table
  before the constructor runs; the loop \<^verbatim>\<open>for (i = 0; i < MAXFILENUM; i++)\<close> sets the slots
  below \<^verbatim>\<open>MAXFILENUM\<close> to \<^verbatim>\<open>NULL\<close>.
\<close>

definition new_FileSystem ::
  "nat \<Rightarrow> params \<Rightarrow> bool \<Rightarrow> disk \<Rightarrow> (nat \<Rightarrow> OpenFile option) \<Rightarrow> FileSystem res" where
  "new_FileSystem fuel P format d memory =
     (let table = (\<lambda>i. if i < MAXFILENUM P then None else memory i)
      in if format then
           (let freeMap = replicate (NumSectors P) False;
                directory = new_Directory (NumDirEntries P)
            in bnd (Mark freeMap FreeMapSector) (\<lambda>freeMap.
               bnd (Mark freeMap DirectorySector) (\<lambda>freeMap.
               bnd (Allocate P (new_FileHeader P) freeMap d (FreeMapFileSize P))
                 (\<lambda>(r1, mapHdr, freeMap, d).
                    if r1 = 0 then Abort AssertFailed
                    else
               bnd (Allocate P (new_FileHeader P) freeMap d (DirectoryFileSize P))
                 (\<lambda>(r2, dirHdr, freeMap, d).
                    if r2 = 0 then Abort AssertFailed
                    else
               bnd (WriteBack P mapHdr d FreeMapSector) (\<lambda>d.
               bnd (WriteBack P dirHdr d DirectorySector) (\<lambda>d.
               bnd (new_OpenFile fuel P d FreeMapSector) (\<lambda>mapFile.
               bnd (new_OpenFile fuel P d DirectorySector) (\<lambda>dirFile.
               bnd (PersistentBitmap_WriteBack P freeMap mapFile d) (\<lambda>d.
               bnd (Directory_WriteBack P directory dirFile d) (\<lambda>d.
                 Ok \<lparr>synchDisk = d, freeMapFile = mapFile, directoryFile = dirFile,
                     fileDescriptorTable = table, openedNum = 0\<rparr>)))))))))))
         else
           bnd (new_OpenFile fuel P d FreeMapSector) (\<lambda>mapFile.
           bnd (new_OpenFile fuel P d DirectorySector) (\<lambda>dirFile.
             Ok \<lparr>synchDisk = d, freeMapFile = mapFile, directoryFile = dirFile,
                 fileDescriptorTable = table, openedNum = 0\<rparr>)))"

subsection \<open>FindSubDir\<close>

text \<open>
  The tokens that successive calls of \<^verbatim>\<open>strtok(_, "/")\<close> return: the maximal runs of
  characters other than the delimiter. The first argument is the token being read.
\<close>

fun tokens_from :: "string \<Rightarrow> string \<Rightarrow> string list" where
  "tokens_from cur [] = (if cur = [] then [] else [cur])"
| "tokens_from cur (c # cs) =
     (if c = CHR ''/'' then (if cur = [] then tokens_from [] cs else cur # tokens_from [] cs)
      else tokens_from (cur @ [c]) cs)"

definition tokens :: "string \<Rightarrow> string list" where
  "tokens path = tokens_from [] path"

text \<open>
  The loop of \<^verbatim>\<open>FindSubDir\<close>, with \<open>token\<close> and the tokens after it: the head of \<open>rest\<close> is
  \<^verbatim>\<open>nextToken\<close>, and \<open>rest = []\<close> stands for \<^verbatim>\<open>nextToken == NULL\<close>. The result is \<open>None\<close> for
  \<^verbatim>\<open>NULL\<close>, or the file of the directory reached and the name left in the buffer
  \<^verbatim>\<open>subDirPath\<close>. The comparisons \<^verbatim>\<open>curDirFile != directoryFile\<close> only guard a \<^verbatim>\<open>delete\<close>.
\<close>

fun FindSubDir_loop ::
  "nat \<Rightarrow> params \<Rightarrow> disk \<Rightarrow> OpenFile \<Rightarrow> Directory \<Rightarrow> string \<Rightarrow> string list
     \<Rightarrow> (OpenFile \<times> string) option res" where
  "FindSubDir_loop fuel P d curDirFile curDir token [] = Ok (Some (curDirFile, token))"
| "FindSubDir_loop fuel P d curDirFile curDir token (nextToken # rest) =
     (if Directory_IsDir P curDir token then
        (let sec = Directory_Find P curDir token
         in if sec = - 1 then Ok None
            else bnd (new_OpenFile fuel P d sec) (\<lambda>curDirFile.
                 bnd (Directory_FetchFrom P curDir curDirFile d) (\<lambda>curDir.
                   FindSubDir_loop fuel P d curDirFile curDir nextToken rest)))
      else Ok (Some (curDirFile, token)))"

definition FindSubDir :: "nat \<Rightarrow> params \<Rightarrow> FileSystem \<Rightarrow> string \<Rightarrow> (OpenFile \<times> string) option res" where
  "FindSubDir fuel P fs subDirPath =
     bnd (Directory_FetchFrom P (new_Directory (NumDirEntries P)) (directoryFile fs) (synchDisk fs))
       (\<lambda>curDir. case tokens subDirPath of
            [] \<Rightarrow> Ok None
          | token # rest \<Rightarrow>
              FindSubDir_loop fuel P (synchDisk fs) (directoryFile fs) curDir token rest)"

subsection \<open>Create\<close>

text \<open>
  \<^verbatim>\<open>strcpy(targetPath, path)\<close> into \<^verbatim>\<open>char targetPath[500]\<close> runs over the array when the path
  has 500 characters or more.
\<close>

definition Create ::
  "nat \<Rightarrow> params \<Rightarrow> FileSystem \<Rightarrow> string \<Rightarrow> int \<Rightarrow> bool \<Rightarrow> (bool \<times> FileSystem) res" where
  "Create fuel P fs path initialSize dir =
     (let initialSize = (if dir then DirectoryFileSize P else initialSize);
          directory = new_Directory (NumDirEntries P)
      in if 500 \<le> length path then Abort OutOfBounds
         else
           bnd (FindSubDir fuel P fs path) (\<lambda>found.
             case found of
               None \<Rightarrow> Ok (False, fs)
             | Some (curDirFile, targetPath) \<Rightarrow>
                 bnd (Directory_FetchFrom P directory curDirFile (synchDisk fs)) (\<lambda>directory.
                   if Directory_Find P directory targetPath \<noteq> - 1 then Ok (False, fs)
                   else
                     bnd (new_PersistentBitmap P (freeMapFile fs) (synchDisk fs) (NumSectors P))
                       (\<lambda>freeMap.
                          case FindAndSet freeMap of (sec, freeMap) \<Rightarrow>
                            if sec = - 1 then Ok (False, fs)
                            else
                              (case Directory_Add P directory targetPath sec dir of
                                 (added, directory) \<Rightarrow>
                                   if \<not> added then Ok (False, fs)
                                   else
                                     bnd (Allocate P (new_FileHeader P) freeMap (synchDisk fs)
                                            initialSize)
                                       (\<lambda>(totalSize, h, freeMap, d).
                                          if totalSize = 0 then Ok (False, fs\<lparr>synchDisk := d\<rparr>)
                                          else
                                            bnd (WriteBack P h d sec) (\<lambda>d.
                                            bnd (Directory_WriteBack P directory curDirFile d) (\<lambda>d.
                                            bnd (PersistentBitmap_WriteBack P freeMap
                                                   (freeMapFile fs) d) (\<lambda>d.
                                              Ok (True, fs\<lparr>synchDisk := d\<rparr>))))))))))"

subsection \<open>Open\<close>

text \<open>
  The loop \<^verbatim>\<open>for (ID = 1; ID <= MAXFILENUM; ID++)\<close> of \<^verbatim>\<open>Open\<close>: the first argument counts the
  iterations that remain. The result is the first \<open>ID\<close> whose slot holds \<^verbatim>\<open>NULL\<close>, if there
  is one, and the indices at which the loop has read the table, in order.
\<close>

fun Open_loop :: "nat \<Rightarrow> (nat \<Rightarrow> OpenFile option) \<Rightarrow> nat \<Rightarrow> nat option \<times> nat list" where
  "Open_loop 0 table ID = (None, [])"
| "Open_loop (Suc k) table ID =
     (if table ID = None then (Some ID, [ID])
      else case Open_loop k table (Suc ID) of (r, seen) \<Rightarrow> (r, ID # seen))"

text \<open>
  \<^verbatim>\<open>Open\<close> returns the pair of the file and its id, \<open>(None, -1)\<close> on failure. The model
  returns also the indices of the table that the call has read or written.
\<close>

definition Open ::
  "nat \<Rightarrow> params \<Rightarrow> FileSystem \<Rightarrow> string
     \<Rightarrow> ((OpenFile option \<times> int) \<times> nat list \<times> FileSystem) res" where
  "Open fuel P fs path =
     (let directory = new_Directory (NumDirEntries P)
      in if 500 \<le> length path then Abort OutOfBounds
         else
           bnd (FindSubDir fuel P fs path) (\<lambda>found.
             case found of
               None \<Rightarrow> Ok ((None, - 1), [], fs)
             | Some (curDirFile, targetPath) \<Rightarrow>
                 bnd (Directory_FetchFrom P directory curDirFile (synchDisk fs)) (\<lambda>directory.
                   let sec = Directory_Find P directory targetPath
                   in if openedNum fs = int (MAXFILENUM P) then Ok ((None, - 1), [], fs)
                      else if \<not> 0 \<le> sec then Ok ((None, - 1), [], fs)
                      else
                        bnd (new_OpenFile fuel P (synchDisk fs) sec) (\<lambda>openFile.
                          case Open_loop (MAXFILENUM P) (fileDescriptorTable fs) 1 of
                            (Some ID, seen) \<Rightarrow>
                              Ok ((Some openFile, int ID), seen,
                                  fs\<lparr>fileDescriptorTable :=
                                        (fileDescriptorTable fs)(ID := Some openFile),
                                      openedNum := openedNum fs + 1\<rparr>)
                          | (None, seen) \<Rightarrow> Ok ((None, - 1), seen, fs)))))"

subsection \<open>Remove\<close>

text \<open>
  \<^verbatim>\<open>Remove\<close> calls itself on the entries of a directory that it reads from the disk, so
  nothing bounds its recursion either: the first argument bounds the depth of the calls
  and the length of the header chains they read. \<open>Remove_entries\<close> is the loop over the
  table of the sub-directory; the results of the calls it makes are dropped, as in the
  source.
\<close>

fun Remove :: "nat \<Rightarrow> params \<Rightarrow> FileSystem \<Rightarrow> bool \<Rightarrow> string \<Rightarrow> (bool \<times> FileSystem) res"
  and Remove_entries ::
    "nat \<Rightarrow> params \<Rightarrow> FileSystem \<Rightarrow> bool \<Rightarrow> string \<Rightarrow> Directory \<Rightarrow> FileSystem res" where
  "Remove 0 P fs recursion path = Diverge"
| "Remove (Suc n) P fs recursion path =
     (let directory = new_Directory (NumDirEntries P)
      in if 500 \<le> length path then Abort OutOfBounds
         else
           bnd (FindSubDir (Suc n) P fs path) (\<lambda>found.
             case found of
               None \<Rightarrow> Ok (False, fs)
             | Some (curDirFile, targetPath) \<Rightarrow>
                 bnd (Directory_FetchFrom P directory curDirFile (synchDisk fs)) (\<lambda>directory.
                   let sec = Directory_Find P directory targetPath
                   in if sec = - 1 then Ok (False, fs)
                      else
                        bnd (if Directory_IsDir P directory targetPath \<and> recursion
                             then
                               bnd (new_OpenFile (Suc n) P (synchDisk fs) sec) (\<lambda>subDirFile.
                               bnd (Directory_FetchFrom P (new_Directory (NumDirEntries P))
                                      subDirFile (synchDisk fs)) (\<lambda>subDir.
                                 Remove_entries n P fs recursion path subDir))
                             else Ok fs) (\<lambda>fs.
                        bnd (FetchFrom (Suc n) P (new_FileHeader P) (synchDisk fs) sec) (\<lambda>fileHdr.
                        bnd (new_PersistentBitmap P (freeMapFile fs) (synchDisk fs) (NumSectors P))
                          (\<lambda>freeMap.
                        bnd (Deallocate fileHdr freeMap) (\<lambda>freeMap.
                        bnd (Clear freeMap sec) (\<lambda>freeMap.
                          case Directory_Remove P directory targetPath of (removed, directory) \<Rightarrow>
                            bnd (PersistentBitmap_WriteBack P freeMap (freeMapFile fs)
                                   (synchDisk fs)) (\<lambda>d.
                            bnd (Directory_WriteBack P directory curDirFile d) (\<lambda>d.
                              Ok (False, fs\<lparr>synchDisk := d\<rparr>)))))))))))"
| "Remove_entries n P fs recursion path [] = Ok fs"
| "Remove_entries n P fs recursion path (e # es) =
     (if inUse e then
        (if 500 \<le> length path + 1 + length (name e) then Abort OutOfBounds
         else bnd (Remove n P fs recursion (path @ ''/'' @ name e))
                (\<lambda>(r, fs). Remove_entries n P fs recursion path es))
      else Remove_entries n P fs recursion path es)"

section \<open>Notions used in the statements\<close>

text \<open>
  The values that \<^verbatim>\<open>Allocate\<close> stores in \<^verbatim>\<open>numBytes\<close> and \<^verbatim>\<open>numSectors\<close> for a request of
  \<open>n\<close> bytes.
\<close>

definition seg_bytes :: "params \<Rightarrow> int \<Rightarrow> int" where
  "seg_bytes P n = (if MaxFileSize P < n then MaxFileSize P else n)"

definition seg_sectors :: "params \<Rightarrow> int \<Rightarrow> int" where
  "seg_sectors P n = divRoundUp (seg_bytes P n) (int (SectorSize P))"

text \<open>The segments of a chain in order, and the sectors of the successor headers.\<close>

fun segments :: "FileHeader \<Rightarrow> FileHeader list" where
  "segments (FileHeader nb ns ds nxt nsec) =
     FileHeader nb ns ds nxt nsec # (case nxt of None \<Rightarrow> [] | Some h' \<Rightarrow> segments h')"

fun succ_sectors :: "FileHeader \<Rightarrow> int list" where
  "succ_sectors (FileHeader nb ns ds nxt nsec) =
     (case nxt of None \<Rightarrow> [] | Some h' \<Rightarrow> nsec # succ_sectors h')"

text \<open>
  The chains that the code builds: every field is an \<^verbatim>\<open>int\<close>, the table has \<^verbatim>\<open>NumDirect\<close>
  entries, and a segment has a successor object exactly when its \<^verbatim>\<open>nextFileHeaderSector\<close>
  is not \<open>-1\<close>.
\<close>

fun wf_chain :: "params \<Rightarrow> FileHeader \<Rightarrow> bool" where
  "wf_chain P (FileHeader nb ns ds nxt nsec) =
     (is_int32 nb \<and> is_int32 ns \<and> is_int32 nsec \<and> list_all is_int32 ds
      \<and> length ds = NumDirect P \<and> ((nxt = None) = (nsec = - 1))
      \<and> (case nxt of None \<Rightarrow> True | Some h' \<Rightarrow> wf_chain P h'))"

text \<open>Every segment that is not the last one holds \<^verbatim>\<open>MaxFileSize\<close> bytes.\<close>

fun nonterminal_full :: "params \<Rightarrow> FileHeader \<Rightarrow> bool" where
  "nonterminal_full P (FileHeader nb ns ds nxt nsec) =
     ((nsec \<noteq> - 1 \<longrightarrow> nb = MaxFileSize P)
      \<and> (case nxt of None \<Rightarrow> True | Some h' \<Rightarrow> nonterminal_full P h'))"

subsection \<open>Concrete disks\<close>

text \<open>
  Two choices of the constants, for the runs below. In both the header fills its sector
  exactly. With \<open>seed_params\<close> a sector has 128 bytes and a header 29 direct sectors, so that
  \<^verbatim>\<open>MaxFileSize\<close> is 3712; with \<open>small_params\<close> a sector has 16 bytes and a header one direct
  sector, so that \<^verbatim>\<open>MaxFileSize\<close> is 16.
\<close>

definition seed_params :: params where
  "seed_params = \<lparr>SectorSize = 128, NumSectors = 64, NumDirect = 29, NumDirEntries = 10,
                   FileNameMaxLen = 9, MAXFILENUM = 3\<rparr>"

definition small_params :: params where
  "small_params = \<lparr>SectorSize = 16, NumSectors = 16, NumDirect = 1, NumDirEntries = 2,
                    FileNameMaxLen = 1, MAXFILENUM = 3\<rparr>"

definition blank_disk :: "params \<Rightarrow> disk" where
  "blank_disk P = replicate (NumSectors P) (replicate (SectorSize P) 0)"

definition free_last :: "params \<Rightarrow> nat \<Rightarrow> Bitmap" where
  \<comment> \<open>The map in which only the last \<open>k\<close> sectors are free.\<close>
  "free_last P k = replicate (NumSectors P - k) True @ replicate k False"

definition formatted :: "params \<Rightarrow> FileSystem res" where
  \<comment> \<open>The file system that the constructor leaves on a blank disk when it formats it.\<close>
  "formatted P = new_FileSystem 3 P True (blank_disk P) (\<lambda>i. None)"

definition free_sectors :: "params \<Rightarrow> FileSystem \<Rightarrow> int res" where
  \<comment> \<open>\<^verbatim>\<open>NumClear\<close> of the map read from the bitmap file.\<close>
  "free_sectors P fs =
     bnd (new_PersistentBitmap P (freeMapFile fs) (synchDisk fs) (NumSectors P))
       (\<lambda>freeMap. Ok (NumClear freeMap))"

definition used_sectors :: "params \<Rightarrow> FileSystem \<Rightarrow> nat list res" where
  \<comment> \<open>The sectors marked in the map read from the bitmap file.\<close>
  "used_sectors P fs =
     bnd (new_PersistentBitmap P (freeMapFile fs) (synchDisk fs) (NumSectors P))
       (\<lambda>freeMap. Ok (filter (\<lambda>i. freeMap ! i) [0..<length freeMap]))"

definition root_lookup :: "params \<Rightarrow> FileSystem \<Rightarrow> string \<Rightarrow> int res" where
  \<comment> \<open>\<^verbatim>\<open>Find\<close> on the root directory read from its file.\<close>
  "root_lookup P fs nm =
     bnd (Directory_FetchFrom P (new_Directory (NumDirEntries P)) (directoryFile fs) (synchDisk fs))
       (\<lambda>directory. Ok (Directory_Find P directory nm))"

section \<open>Facts about Allocate\<close>

lemma bnd_Ok_iff: "bnd m f = Ok y \<longleftrightarrow> (\<exists>x. m = Ok x \<and> f x = Ok y)"
  by (cases m) auto

lemma res_case_Ok:
  "(case m of Ok x \<Rightarrow> Q x | Abort e \<Rightarrow> False | Diverge \<Rightarrow> False) \<Longrightarrow> \<exists>x. m = Ok x \<and> Q x"
  by (cases m) auto

declare Allocate.simps [simp del]

lemma Allocate_eq:
  "Allocate P h m d n =
     (if NumClear m < seg_sectors P n
      then Ok (0, FileHeader (seg_bytes P n) (seg_sectors P n) (dataSectors h) (nextFileHeader h)
                    (nextFileHeaderSector h), m, d)
      else bnd (Allocate_loop (nat (seg_sectors P n)) P 0 m d (dataSectors h))
             (\<lambda>(m1, d1, ds).
                if n - MaxFileSize P < INT_MIN then Abort SignedOverflow
                else if MaxFileSize P < n then
                  (case FindAndSet m1 of (s, m2) \<Rightarrow>
                     if \<not> 0 \<le> s then Abort AssertFailed
                     else bnd (Allocate P (new_FileHeader P) m2 d1 (n - MaxFileSize P))
                            (\<lambda>(r, h', m3, d3).
                               Ok (int (SectorSize P) + r,
                                   FileHeader (seg_bytes P n) (seg_sectors P n) ds (Some h') s,
                                   m3, d3)))
                else Ok (int (SectorSize P),
                         FileHeader (seg_bytes P n) (seg_sectors P n) ds (nextFileHeader h)
                           (nextFileHeaderSector h), m1, d1)))"
  unfolding seg_sectors_def seg_bytes_def
  by (subst Allocate.simps) (simp only: Let_def diff_gt_0_iff_gt)

lemma Allocate_Ok_cases:
  assumes "Allocate P h m d n = Ok (r, h', m', d')"
  obtains
    (full) "NumClear m < seg_sectors P n" and "r = 0" and "m' = m" and "d' = d"
      and "h' = FileHeader (seg_bytes P n) (seg_sectors P n) (dataSectors h) (nextFileHeader h)
                 (nextFileHeaderSector h)"
  | (last) ds where "\<not> NumClear m < seg_sectors P n" and "\<not> MaxFileSize P < n"
      and "Allocate_loop (nat (seg_sectors P n)) P 0 m d (dataSectors h) = Ok (m', d', ds)"
      and "r = int (SectorSize P)"
      and "h' = FileHeader (seg_bytes P n) (seg_sectors P n) ds (nextFileHeader h)
                 (nextFileHeaderSector h)"
  | (chain) m1 d1 ds s m2 r2 h2 where "\<not> NumClear m < seg_sectors P n" and "MaxFileSize P < n"
      and "Allocate_loop (nat (seg_sectors P n)) P 0 m d (dataSectors h) = Ok (m1, d1, ds)"
      and "FindAndSet m1 = (s, m2)" and "0 \<le> s"
      and "Allocate P (new_FileHeader P) m2 d1 (n - MaxFileSize P) = Ok (r2, h2, m', d')"
      and "r = int (SectorSize P) + r2"
      and "h' = FileHeader (seg_bytes P n) (seg_sectors P n) ds (Some h2) s"
proof (cases "NumClear m < seg_sectors P n")
  case True
  with assms have "r = 0 \<and> m' = m \<and> d' = d \<and>
      h' = FileHeader (seg_bytes P n) (seg_sectors P n) (dataSectors h) (nextFileHeader h)
                 (nextFileHeaderSector h)"
    by (simp add: Allocate_eq [of P h m d n])
  with True full show ?thesis by blast
next
  case False
  from assms False obtain m1 d1 ds where
    loop: "Allocate_loop (nat (seg_sectors P n)) P 0 m d (dataSectors h) = Ok (m1, d1, ds)"
    and rest: "(if n - MaxFileSize P < INT_MIN then Abort SignedOverflow
                else if MaxFileSize P < n then
                  (case FindAndSet m1 of (s, m2) \<Rightarrow>
                     if \<not> 0 \<le> s then Abort AssertFailed
                     else bnd (Allocate P (new_FileHeader P) m2 d1 (n - MaxFileSize P))
                            (\<lambda>(r, h', m3, d3).
                               Ok (int (SectorSize P) + r,
                                   FileHeader (seg_bytes P n) (seg_sectors P n) ds (Some h') s,
                                   m3, d3)))
                else Ok (int (SectorSize P),
                         FileHeader (seg_bytes P n) (seg_sectors P n) ds (nextFileHeader h)
                           (nextFileHeaderSector h), m1, d1)) = Ok (r, h', m', d')"
    by (auto simp: Allocate_eq [of P h m d n] bnd_Ok_iff)
  show ?thesis
  proof (cases "MaxFileSize P < n")
    case small: False
    with rest have "r = int (SectorSize P) \<and> m1 = m' \<and> d1 = d' \<and>
        h' = FileHeader (seg_bytes P n) (seg_sectors P n) ds (nextFileHeader h)
                 (nextFileHeaderSector h)"
      by (simp split: if_splits)
    with False small loop last show ?thesis by blast
  next
    case big: True
    obtain s m2 where fs: "FindAndSet m1 = (s, m2)" by (cases "FindAndSet m1")
    from rest big fs have s: "0 \<le> s"
      by (simp split: if_splits)
    from rest big fs s obtain r2 h2 where
      "Allocate P (new_FileHeader P) m2 d1 (n - MaxFileSize P) = Ok (r2, h2, m', d')"
      "r = int (SectorSize P) + r2" "h' = FileHeader (seg_bytes P n) (seg_sectors P n) ds (Some h2) s"
      by (auto simp: bnd_Ok_iff split: if_splits)
    with False big loop fs s chain show ?thesis by blast
  qed
qed

lemma Allocate_result_nonneg:
  "Allocate P h m d n = Ok (r, h', m', d') \<Longrightarrow> 0 \<le> r"
proof (induction h' arbitrary: h m d n r m' d')
  case (FileHeader nb ns ds nxt nsec)
  from FileHeader.prems show ?case
  proof (cases rule: Allocate_Ok_cases)
    case full
    then show ?thesis by simp
  next
    case (last ds)
    then show ?thesis by simp
  next
    case (chain m1 d1 ds' s m2 r2 h2)
    from chain(8) have "h2 \<in> set_option nxt" by simp
    from FileHeader.IH [OF this chain(6)] chain(7) show ?thesis by simp
  qed
qed

lemma Allocate_zero:
  assumes "Allocate P h m d n = Ok (0, h', m', d')" and "0 < SectorSize P"
  shows "m' = m \<and> d' = d \<and> NumClear m < seg_sectors P n"
  using assms(1)
proof (cases rule: Allocate_Ok_cases)
  case full
  then show ?thesis by simp
next
  case (last ds)
  with assms(2) show ?thesis by simp
next
  case (chain m1 d1 ds s m2 r2 h2)
  with Allocate_result_nonneg [OF chain(6)] assms(2) show ?thesis by simp
qed

lemma MaxFileSize_pos:
  assumes "0 < SectorSize P" and "0 < NumDirect P"
  shows "1 \<le> MaxFileSize P"
proof -
  from assms have "0 < NumDirect P * SectorSize P" by simp
  then have "int 1 \<le> int (NumDirect P * SectorSize P)"
    by (simp only: of_nat_le_iff)
  then show ?thesis by (simp add: MaxFileSize_def)
qed

lemma Allocate_small_single:
  assumes "Allocate P (new_FileHeader P) m d n = Ok (r, h, m', d')" and "\<not> MaxFileSize P < n"
  shows "nextFileHeader h = None \<and> nextFileHeaderSector h = - 1 \<and> numBytes h = n"
  using assms(1)
proof (cases rule: Allocate_Ok_cases)
  case full
  with assms(2) show ?thesis by (simp add: new_FileHeader_def seg_bytes_def)
next
  case (last ds)
  with assms(2) show ?thesis by (simp add: new_FileHeader_def seg_bytes_def)
next
  case (chain m1 d1 ds s m2 r2 h2)
  with assms(2) show ?thesis by simp
qed

lemma Allocate_nonterminal_full:
  "Allocate P (new_FileHeader P) m d n = Ok (r, h, m', d') \<Longrightarrow> nonterminal_full P h"
proof (induction h arbitrary: m d n r m' d')
  case (FileHeader nb ns ds nxt nsec)
  from FileHeader.prems show ?case
  proof (cases rule: Allocate_Ok_cases)
    case full
    then show ?thesis by (simp add: new_FileHeader_def)
  next
    case (last ds')
    then show ?thesis by (simp add: new_FileHeader_def)
  next
    case (chain m1 d1 ds' s m2 r2 h2)
    from chain(8) have "h2 \<in> set_option nxt" by simp
    from FileHeader.IH [OF this chain(6)] chain(8) chain(2) show ?thesis
      by (simp add: seg_bytes_def)
  qed
qed

section \<open>Facts about the image of a header\<close>

lemma mod_2_32_split:
  "(n::int) mod 256 + 256 * ((n div 256) mod 256 + 256 * ((n div 65536) mod 256 + 256 * ((n div 16777216) mod 256))) = n mod 4294967296"
proof -
  have a: "n mod 4294967296 = 256 * (n div 256 mod 16777216) + n mod 256"
    using zmod_zmult2_eq [of 16777216 n 256] by simp
  have b: "n div 256 mod 16777216 = 256 * (n div 65536 mod 65536) + n div 256 mod 256"
    using zmod_zmult2_eq [of 65536 "n div 256" 256] zdiv_zmult2_eq [of 256 n 256] by simp
  have c: "n div 65536 mod 65536 = 256 * (n div 16777216 mod 256) + n div 65536 mod 256"
    using zmod_zmult2_eq [of 256 "n div 65536" 256] zdiv_zmult2_eq [of 256 n 65536] by simp
  show ?thesis by (simp only: a b c) simp
qed

lemma sdiv_abs_le:
  assumes "0 < s"
  shows "\<bar>(x::int) sdiv s\<bar> \<le> \<bar>x\<bar>"
proof (cases "x = 0")
  case True
  then show ?thesis by (simp add: signed_divide_int_def)
next
  case False
  then have "0 < \<bar>x\<bar>" by simp
  from int_div_le_self [OF this, of s] have "\<bar>x\<bar> div s \<le> \<bar>x\<bar>" .
  moreover have "0 \<le> \<bar>x\<bar> div s" using assms by (simp add: pos_imp_zdiv_nonneg_iff)
  ultimately show ?thesis using assms False
    by (simp add: signed_divide_int_def abs_mult)
qed

lemma foldr_int_bytes_unfold: "foldr (\<lambda>b acc. uint b + 256 * acc) (int_bytes n) 0 = uint (word_of_int n :: byte) + 256 * (uint (word_of_int (n div 256) :: byte) + 256 * (uint (word_of_int (n div 65536) :: byte) + 256 * (uint (word_of_int (n div 16777216) :: byte))))"
  by (simp add: int_bytes_def)

lemma uint_byte: "uint (word_of_int k :: byte) = k mod 256"
  by (simp add: uint_word_of_int)

lemma foldr_int_bytes:
  "foldr (\<lambda>b acc. uint b + 256 * acc) (int_bytes n) 0 = n mod 4294967296"
  by (simp only: foldr_int_bytes_unfold uint_byte mod_2_32_split)

lemma bytes_int_int_bytes:
  assumes "is_int32 n"
  shows "bytes_int (int_bytes n) = n"
proof -
  from assms have range: "- 2147483648 \<le> n" "n \<le> 2147483647"
    by (simp_all add: is_int32_def INT_MIN_def INT_MAX_def)
  show ?thesis
  proof (cases "0 \<le> n")
    case True
    with range have "n mod 4294967296 = n" by simp
    with range show ?thesis by (simp add: bytes_int_def foldr_int_bytes)
  next
    case False
    have "n mod 4294967296 = (n + 4294967296) mod 4294967296" by simp
    also from range False have "\<dots> = n + 4294967296"
      by (intro mod_pos_pos_trivial) simp_all
    finally have "n mod 4294967296 = n + 4294967296" .
    with range False show ?thesis by (simp add: bytes_int_def foldr_int_bytes)
  qed
qed

lemma length_int_bytes [simp]: "length (int_bytes n) = 4"
  by (simp add: int_bytes_def)

lemma int_at_append_0:
  "is_int32 n \<Longrightarrow> int_at (int_bytes n @ rest) 0 = n"
  by (simp add: int_at_def bytes_int_int_bytes)

lemma int_at_skip:
  "length pre = k \<Longrightarrow> int_at (pre @ rest) (k + off) = int_at rest off"
  by (simp add: int_at_def)

lemma int_at_concat:
  "i < length ds \<Longrightarrow> is_int32 (ds ! i)
   \<Longrightarrow> int_at (concat (map int_bytes ds) @ rest) (4 * i) = ds ! i"
proof (induction ds arbitrary: i)
  case Nil
  then show ?case by simp
next
  case (Cons x xs)
  show ?case
  proof (cases i)
    case 0
    with Cons.prems show ?thesis by (simp add: int_at_append_0)
  next
    case (Suc j)
    with Cons.prems have j: "j < length xs" "is_int32 (xs ! j)" by simp_all
    have "int_at (int_bytes x @ (concat (map int_bytes xs) @ rest)) (4 + 4 * j)
            = int_at (concat (map int_bytes xs) @ rest) (4 * j)"
      by (rule int_at_skip) simp
    with Cons.IH [OF j] Suc show ?thesis by simp
  qed
qed

lemma header_image_fields:
  assumes "is_int32 nb" "is_int32 ns" "is_int32 nsec" "list_all is_int32 ds"
    and buf_def: "buf = int_bytes nb @ int_bytes ns @ int_bytes nsec @ concat (map int_bytes ds) @ pad"
  shows "int_at buf 0 = nb" and "int_at buf 4 = ns" and "int_at buf 8 = nsec"
    and "map (\<lambda>i. int_at buf (12 + 4 * i)) [0..<length ds] = ds"
proof -
  show "int_at buf 0 = nb" using assms(1) by (simp add: buf_def int_at_append_0)
  have "int_at buf (4 + 0) = int_at (int_bytes ns @ int_bytes nsec @ concat (map int_bytes ds) @ pad) 0"
    unfolding buf_def by (rule int_at_skip) simp
  with assms(2) show "int_at buf 4 = ns" by (simp add: int_at_append_0)
  have "int_at buf (8 + 0) = int_at (int_bytes nsec @ concat (map int_bytes ds) @ pad) 0"
    using int_at_skip [of "int_bytes nb @ int_bytes ns" 8 "int_bytes nsec @ concat (map int_bytes ds) @ pad" 0]
    by (simp add: buf_def)
  with assms(3) show "int_at buf 8 = nsec" by (simp add: int_at_append_0)
  have at: "int_at buf (12 + 4 * i) = ds ! i" if "i < length ds" for i
  proof -
    have "int_at buf (12 + 4 * i) = int_at (concat (map int_bytes ds) @ pad) (4 * i)"
      using int_at_skip [of "int_bytes nb @ int_bytes ns @ int_bytes nsec" 12
          "concat (map int_bytes ds) @ pad" "4 * i"]
      by (simp add: buf_def)
    moreover from assms(4) that have "is_int32 (ds ! i)" by (simp add: list_all_length)
    ultimately show ?thesis using that by (simp add: int_at_concat)
  qed
  show "map (\<lambda>i. int_at buf (12 + 4 * i)) [0..<length ds] = ds"
    by (rule nth_equalityI) (simp_all add: at)
qed

section \<open>WriteBack followed by FetchFrom\<close>

lemma WriteSector_Ok:
  "WriteSector d s buf = Ok d' \<Longrightarrow> 0 \<le> s \<and> nat s < length d \<and> d' = d[nat s := buf]"
  by (auto simp: WriteSector_def split: if_splits)

lemma WriteBack_Ok_cases:
  assumes "WriteBack P (FileHeader nb ns ds nxt nsec) d sec = Ok d2"
  obtains (last) "header_size P \<le> SectorSize P" and "0 \<le> sec" and "nat sec < length d"
      and "nsec = - 1"
      and "d2 = d[nat sec := int_bytes nb @ int_bytes ns @ int_bytes nsec
                   @ concat (map int_bytes ds)
                   @ replicate (SectorSize P - (12 + 4 * length ds)) 0]"
  | (chain) h' d1 where "header_size P \<le> SectorSize P" and "0 \<le> sec" and "nat sec < length d"
      and "nsec \<noteq> - 1" and "nxt = Some h'"
      and "d1 = d[nat sec := int_bytes nb @ int_bytes ns @ int_bytes nsec
                   @ concat (map int_bytes ds)
                   @ replicate (SectorSize P - (12 + 4 * length ds)) 0]"
      and "WriteBack P h' d1 nsec = Ok d2"
proof -
  from assms have fit: "header_size P \<le> SectorSize P"
    by (simp split: if_splits)
  have len: "length (concat (map int_bytes ds)) = 4 * length ds"
    by (induction ds) simp_all
  from assms fit obtain d1 where
    w: "WriteSector d sec (int_bytes nb @ int_bytes ns @ int_bytes nsec
          @ concat (map int_bytes ds) @ replicate (SectorSize P - (12 + 4 * length ds)) 0) = Ok d1"
    and rest: "(if nsec \<noteq> - 1
                then (case nxt of None \<Rightarrow> Abort NullDeref | Some h' \<Rightarrow> WriteBack P h' d1 nsec)
                else Ok d1) = Ok d2"
    by (auto simp: Let_def bnd_Ok_iff len)
  from WriteSector_Ok [OF w] have sec: "0 \<le> sec" "nat sec < length d"
    and d1: "d1 = d[nat sec := int_bytes nb @ int_bytes ns @ int_bytes nsec
                   @ concat (map int_bytes ds)
                   @ replicate (SectorSize P - (12 + 4 * length ds)) 0]"
    by simp_all
  show ?thesis
  proof (cases "nsec = - 1")
    case True
    with rest have "d2 = d1" by simp
    with True fit sec d1 last show ?thesis by blast
  next
    case False
    with rest obtain h' where "nxt = Some h'" "WriteBack P h' d1 nsec = Ok d2"
      by (cases nxt) auto
    with False fit sec d1 chain show ?thesis by blast
  qed
qed

lemma WriteBack_frame:
  "WriteBack P h d sec = Ok d2 \<Longrightarrow>
   length d2 = length d \<and> (\<forall>i. int i \<notin> set (sec # succ_sectors h) \<longrightarrow> d2 ! i = d ! i)"
proof (induction h arbitrary: d sec)
  case (FileHeader nb ns ds nxt nsec)
  from FileHeader.prems show ?case
  proof (cases rule: WriteBack_Ok_cases)
    case last
    then show ?thesis by auto
  next
    case (chain h' d1)
    from chain(5) have "h' \<in> set_option nxt" by simp
    from FileHeader.IH [OF this chain(7)]
    have len: "length d2 = length d1"
      and same: "\<And>i. int i \<notin> set (nsec # succ_sectors h') \<Longrightarrow> d2 ! i = d1 ! i"
      by simp_all
    show ?thesis
    proof (intro conjI allI impI)
      show "length d2 = length d" using len chain(6) by simp
    next
      fix i
      assume i: "int i \<notin> set (sec # succ_sectors (FileHeader nb ns ds nxt nsec))"
      with chain(5) have "int i \<notin> set (nsec # succ_sectors h')" and "i \<noteq> nat sec"
        using chain(2) by auto
      with same [of i] chain(6) show "d2 ! i = d ! i" by simp
    qed
  qed
qed

lemma WriteBack_FetchFrom:
  assumes "wf_chain P h" and "distinct (sec # succ_sectors h)"
    and "WriteBack P h d sec = Ok d2" and "nextFileHeader h0 = None"
    and "length (segments h) \<le> fuel"
  shows "FetchFrom fuel P h0 d2 sec = Ok h"
  using assms
proof (induction h arbitrary: d sec fuel h0)
  case (FileHeader nb ns ds nxt nsec)
  let ?buf = "int_bytes nb @ int_bytes ns @ int_bytes nsec @ concat (map int_bytes ds)
                @ replicate (SectorSize P - (12 + 4 * length ds)) 0"
  from FileHeader.prems(1) have ints: "is_int32 nb" "is_int32 ns" "is_int32 nsec"
      "list_all is_int32 ds"
    and nd: "length ds = NumDirect P" and link: "(nxt = None) = (nsec = - 1)"
    by simp_all
  from FileHeader.prems(5) obtain n where fuel: "fuel = Suc n"
    and n: "length (case nxt of None \<Rightarrow> [] | Some h' \<Rightarrow> segments h') \<le> n"
    by (cases fuel) simp_all
  note fields = header_image_fields [OF ints refl, of "replicate (SectorSize P - (12 + 4 * length ds)) 0"]
  from FileHeader.prems(3) show ?case
  proof (cases rule: WriteBack_Ok_cases)
    case last
    with link have nxt: "nxt = None" by simp
    from last have rd: "ReadSector d2 sec = Ok ?buf"
      by (simp add: ReadSector_def)
    show ?thesis
      using last(1) last(4) nxt FileHeader.prems(4) fields nd
      by (simp add: fuel rd Let_def del: upt_Suc)
  next
    case (chain h' d1)
    from chain(5) have mem: "h' \<in> set_option nxt" by simp
    from FileHeader.prems(1) chain(5) have wf': "wf_chain P h'" by simp
    from FileHeader.prems(2) chain(5) have dist': "distinct (nsec # succ_sectors h')"
      and notin: "sec \<notin> set (nsec # succ_sectors h')"
      by auto
    from n chain(5) have n': "length (segments h') \<le> n" by simp
    have new: "nextFileHeader (new_FileHeader P) = None" by (simp add: new_FileHeader_def)
    from FileHeader.IH [OF mem wf' dist' chain(7) new n']
    have inner: "FetchFrom n P (new_FileHeader P) d2 nsec = Ok h'" .
    from WriteBack_frame [OF chain(7)] notin chain(2)
    have "length d2 = length d1" and "d2 ! nat sec = d1 ! nat sec"
      by simp_all
    with chain(2,3,6) have rd: "ReadSector d2 sec = Ok ?buf"
      by (simp add: ReadSector_def)
    show ?thesis
      using chain(1) chain(4) chain(5) fields nd inner
      by (simp add: fuel rd Let_def del: upt_Suc)
  qed
qed

section \<open>The chains that Allocate builds\<close>

lemma sdiv_pos_bounds:
  assumes "0 < s"
  shows "0 \<le> x \<Longrightarrow> 0 \<le> (x::int) sdiv s \<and> x sdiv s \<le> x"
    and "x \<le> 0 \<Longrightarrow> x \<le> x sdiv s \<and> x sdiv s \<le> 0"
proof -
  from sdiv_abs_le [OF assms, of x] have a: "\<bar>x sdiv s\<bar> \<le> \<bar>x\<bar>" .
  have sg: "x sdiv s = sgn x * (\<bar>x\<bar> div s)"
    using assms by (simp add: signed_divide_int_def)
  have nn: "0 \<le> \<bar>x\<bar> div s" using assms by (simp add: pos_imp_zdiv_nonneg_iff)
  show "0 \<le> x \<Longrightarrow> 0 \<le> x sdiv s \<and> x sdiv s \<le> x"
    using a nn sg by (cases "x = 0") (auto simp: sgn_if)
  show "x \<le> 0 \<Longrightarrow> x \<le> x sdiv s \<and> x sdiv s \<le> 0"
    using a nn sg by (cases "x = 0") (auto simp: sgn_if)
qed

lemma Allocate_loop_Suc:
  assumes "Allocate_loop (Suc k) P i m d ds = Ok (m', d', ds')"
  obtains s d1 where "FindAndSet m = (s, m[nat s := True])" and "0 \<le> s" and "s < int (length m)"
    and "\<not> m ! nat s" and "i < length ds"
    and "Allocate_loop k P (Suc i) (m[nat s := True]) d1 (ds[i := s]) = Ok (m', d', ds')"
proof -
  obtain s m1 where fs: "FindAndSet m = (s, m1)" by (cases "FindAndSet m")
  from assms fs have s: "0 \<le> s" and i: "i < length ds"
    by (auto split: if_splits)
  from assms fs s i obtain d1 where
    "Allocate_loop k P (Suc i) m1 d1 (ds[i := s]) = Ok (m', d', ds')"
    by (auto simp: bnd_Ok_iff)
  with FindAndSet_found [OF fs s] fs s i that show ?thesis by simp
qed

lemma Allocate_loop_facts:
  "Allocate_loop k P i m d ds = Ok (m', d', ds') \<Longrightarrow>
   length m' = length m \<and> (\<forall>j. j < length m \<longrightarrow> m ! j \<longrightarrow> m' ! j)
   \<and> length ds' = length ds
   \<and> (\<forall>x\<in>set ds'. x \<in> set ds \<or> (0 \<le> x \<and> x < int (length m)))"
proof (induction k arbitrary: i m d ds)
  case 0
  then show ?case by simp
next
  case (Suc k)
  from Suc.prems show ?case
  proof (cases rule: Allocate_loop_Suc)
    case (1 s d1)
    from Suc.IH [OF 1(6)]
    have len: "length m' = length m"
      and mono: "\<And>j. j < length m \<Longrightarrow> (m[nat s := True]) ! j \<Longrightarrow> m' ! j"
      and lds: "length ds' = length ds"
      and els: "\<And>x. x \<in> set ds' \<Longrightarrow> x \<in> set (ds[i := s]) \<or> (0 \<le> x \<and> x < int (length m))"
      by simp_all
    have "m' ! j" if "j < length m" "m ! j" for j
      using mono [of j] that by (cases "j = nat s") simp_all
    moreover have "x \<in> set ds \<or> (0 \<le> x \<and> x < int (length m))" if "x \<in> set ds'" for x
    proof -
      from els [OF that] set_update_subset_insert [of ds i s] 1(2,3) show ?thesis by auto
    qed
    ultimately show ?thesis using len lds by blast
  qed
qed

lemma Allocate_chain_sectors:
  "Allocate P (new_FileHeader P) m d n = Ok (r, h, m', d') \<Longrightarrow>
   length m' = length m \<and> (\<forall>j. j < length m \<longrightarrow> m ! j \<longrightarrow> m' ! j)
   \<and> distinct (succ_sectors h)
   \<and> (\<forall>s\<in>set (succ_sectors h). 0 \<le> s \<and> s < int (length m) \<and> \<not> m ! nat s)"
proof (induction h arbitrary: m d n r m' d')
  case (FileHeader nb ns ds nxt nsec)
  from FileHeader.prems show ?case
  proof (cases rule: Allocate_Ok_cases)
    case full
    then show ?thesis by (simp add: new_FileHeader_def)
  next
    case (last ds')
    from Allocate_loop_facts [OF last(3)] last(5) show ?thesis
      by (simp add: new_FileHeader_def)
  next
    case (chain m1 d1 ds' s m2 r2 h2)
    from Allocate_loop_facts [OF chain(3)]
    have len1: "length m1 = length m" and mono1: "\<And>j. j < length m \<Longrightarrow> m ! j \<Longrightarrow> m1 ! j"
      by simp_all
    from FindAndSet_found [OF chain(4,5)]
    have len2: "length m2 = length m1" and s: "s < int (length m1)" "\<not> m1 ! nat s"
      and m2: "m2 = m1[nat s := True]"
      by simp_all
    from chain(8) have "h2 \<in> set_option nxt" by simp
    from FileHeader.IH [OF this chain(6)]
    have len3: "length m' = length m2"
      and mono3: "\<And>j. j < length m2 \<Longrightarrow> m2 ! j \<Longrightarrow> m' ! j"
      and dist: "distinct (succ_sectors h2)"
      and free: "\<And>x. x \<in> set (succ_sectors h2) \<Longrightarrow> 0 \<le> x \<and> x < int (length m2) \<and> \<not> m2 ! nat x"
      by simp_all
    have mono12: "m2 ! j" if "j < length m" "m ! j" for j
      using mono1 [OF that] that(1) len1 m2 by (cases "j = nat s") simp_all
    have a: "length m' = length m" using len1 len2 len3 by simp
    have b: "m' ! j" if "j < length m" "m ! j" for j
      using mono3 [of j] mono12 [OF that] that(1) len1 len2 by simp
    have c: "s \<notin> set (succ_sectors h2)"
    proof
      assume "s \<in> set (succ_sectors h2)"
      from free [OF this] m2 s(1) chain(5) show False by simp
    qed
    have e: "0 \<le> x \<and> x < int (length m) \<and> \<not> m ! nat x" if "x \<in> set (succ_sectors h2)" for x
    proof -
      from free [OF that] have x: "0 \<le> x" "x < int (length m2)" "\<not> m2 ! nat x" by simp_all
      from x(1,2) len1 len2 have nx: "nat x < length m" by (simp add: nat_less_iff)
      from mono12 [OF nx] x len1 len2 show ?thesis by auto
    qed
    from s(1) chain(5) len1 have ns: "nat s < length m" by (simp add: nat_less_iff)
    have f: "\<not> m ! nat s"
      using mono1 [OF ns] s(2) by auto
    from a b c dist e f s(1) chain(5) chain(8) len1 show ?thesis by auto
  qed
qed

lemma seg_int32:
  assumes "is_int32 n" and "0 < SectorSize P"
    and "MaxFileSize P + int (SectorSize P) \<le> INT_MAX"
  shows "is_int32 (seg_bytes P n)" and "is_int32 (seg_sectors P n)"
proof -
  have M: "0 \<le> MaxFileSize P" by (simp add: MaxFileSize_def)
  from assms M have nb: "INT_MIN \<le> seg_bytes P n" "seg_bytes P n \<le> MaxFileSize P"
    by (auto simp: seg_bytes_def is_int32_def INT_MIN_def)
  with assms show "is_int32 (seg_bytes P n)"
    by (simp add: is_int32_def)
  let ?x = "seg_bytes P n + int (SectorSize P) - 1"
  from assms(2) have s: "0 < int (SectorSize P)" by simp
  from nb assms have x: "INT_MIN \<le> ?x" "?x \<le> INT_MAX" by simp_all
  show "is_int32 (seg_sectors P n)"
  proof (cases "0 \<le> ?x")
    case True
    from sdiv_pos_bounds(1) [OF s True] x show ?thesis
      by (simp add: seg_sectors_def divRoundUp_def is_int32_def INT_MIN_def)
  next
    case False
    then have "?x \<le> 0" by simp
    from sdiv_pos_bounds(2) [OF s this] x show ?thesis
      by (simp add: seg_sectors_def divRoundUp_def is_int32_def INT_MAX_def)
  qed
qed

lemma Allocate_wf_chain:
  assumes "Allocate P (new_FileHeader P) m d n = Ok (r, h, m', d')"
    and "is_int32 n" and "0 < SectorSize P"
    and "MaxFileSize P + int (SectorSize P) \<le> INT_MAX"
    and "int (length m) \<le> INT_MAX"
  shows "wf_chain P h"
  using assms(1,2,5)
proof (induction h arbitrary: m d n r m' d')
  case (FileHeader nb ns ds nxt nsec)
  note seg = seg_int32 [OF FileHeader.prems(2) assms(3,4)]
  have minus1: "is_int32 (- 1)" by (simp add: is_int32_def INT_MIN_def INT_MAX_def)
  have sect: "is_int32 x" if "0 \<le> x" "x < int (length m)" for x
    using that FileHeader.prems(3) by (simp add: is_int32_def INT_MIN_def)
  have table: "list_all is_int32 ds' \<and> length ds' = NumDirect P"
    if "Allocate_loop k P 0 m d (dataSectors (new_FileHeader P)) = Ok (m1, d1, ds')"
    for k m1 d1 ds'
  proof -
    from Allocate_loop_facts [OF that]
    have "length ds' = NumDirect P"
      and "\<And>x. x \<in> set ds' \<Longrightarrow> x = - 1 \<or> (0 \<le> x \<and> x < int (length m))"
      by (auto simp: new_FileHeader_def)
    with minus1 sect show ?thesis by (auto simp: list_all_iff)
  qed
  from FileHeader.prems(1) show ?case
  proof (cases rule: Allocate_Ok_cases)
    case full
    with seg minus1 show ?thesis by (simp add: new_FileHeader_def list_all_iff)
  next
    case (last ds')
    with seg minus1 table [OF last(3)] show ?thesis by (simp add: new_FileHeader_def)
  next
    case (chain m1 d1 ds' s m2 r2 h2)
    from Allocate_loop_facts [OF chain(3)] have len1: "length m1 = length m" by simp
    from FindAndSet_found [OF chain(4,5)] len1
    have len2: "length m2 = length m" and s: "s < int (length m)" by simp_all
    have M: "0 \<le> MaxFileSize P" by (simp add: MaxFileSize_def)
    with chain(2) FileHeader.prems(2) have n': "is_int32 (n - MaxFileSize P)"
      by (simp add: is_int32_def INT_MIN_def)
    from chain(8) have "h2 \<in> set_option nxt" by simp
    from FileHeader.IH [OF this chain(6) n'] len2 FileHeader.prems(3)
    have "wf_chain P h2" by simp
    with seg table [OF chain(3)] sect [OF chain(5) s] chain(5) chain(8) show ?thesis
      by auto
  qed
qed

lemma Test_marked: "Test m sec = Ok True \<Longrightarrow> 0 \<le> sec \<and> sec < int (length m) \<and> m ! nat sec"
  by (auto simp: Test_def in_range_def split: if_splits)

lemma Allocate_WriteBack_FetchFrom:
  assumes alloc: "Allocate P (new_FileHeader P) m d n = Ok (r, h, m', d')"
    and "is_int32 n" and "0 < SectorSize P"
    and "MaxFileSize P + int (SectorSize P) \<le> INT_MAX"
    and "int (length m) \<le> INT_MAX"
    and marked: "Test m sec = Ok True"
    and wb: "WriteBack P h d' sec = Ok d2"
  shows "FetchFrom (length (segments h)) P (new_FileHeader P) d2 sec = Ok h"
proof -
  from Allocate_wf_chain [OF assms(1-5)] have wf: "wf_chain P h" .
  from Allocate_chain_sectors [OF alloc]
  have dist: "distinct (succ_sectors h)"
    and free: "\<And>s. s \<in> set (succ_sectors h) \<Longrightarrow> \<not> m ! nat s"
    by simp_all
  from Test_marked [OF marked] free have "sec \<notin> set (succ_sectors h)" by auto
  with dist have "distinct (sec # succ_sectors h)" by simp
  from WriteBack_FetchFrom [OF wf this wb _ order_refl] show ?thesis
    by (simp add: new_FileHeader_def)
qed

lemma Allocate_zero_disk:
  assumes "Allocate P h m d n = Ok x" and "fst x = 0" and "0 < SectorSize P"
  shows "snd (snd (snd x)) = d"
proof -
  obtain r h' m' d' where x: "x = (r, h', m', d')" by (cases x)
  with assms Allocate_zero [of P h m d n h' m' d'] show ?thesis by simp
qed

section \<open>Allocate on a map that is nearly full\<close>

lemma FindAndSet_full:
  assumes "NumClear m = 0"
  shows "FindAndSet m = (- 1, m)"
proof -
  obtain s m' where fs: "FindAndSet m = (s, m')" by (cases "FindAndSet m")
  have "\<not> 0 \<le> s"
  proof
    assume "0 \<le> s"
    from FindAndSet_found(1) [OF fs this] NumClear_nonneg [of m'] assms show False by simp
  qed
  from FindAndSet_none [OF fs this] fs show ?thesis by simp
qed

lemma FindAndSet_free:
  assumes "0 < NumClear m"
  obtains s m' where "FindAndSet m = (s, m')" and "0 \<le> s"
proof -
  obtain s m' where fs: "FindAndSet m = (s, m')" by (cases "FindAndSet m")
  have "0 \<le> s"
  proof (rule ccontr)
    assume "\<not> 0 \<le> s"
    from FindAndSet_none [OF fs this] assms show False by simp
  qed
  with fs that show ?thesis by blast
qed

lemma Allocate_loop_succeeds:
  "int k \<le> NumClear m \<Longrightarrow> i + k \<le> length ds \<Longrightarrow> length m \<le> length d \<Longrightarrow>
   \<exists>m' d' ds'. Allocate_loop k P i m d ds = Ok (m', d', ds') \<and> length d' = length d"
proof (induction k arbitrary: i m d ds)
  case 0
  then show ?case by simp
next
  case (Suc k)
  from Suc.prems(1) have "0 < NumClear m" by simp
  then obtain s m1 where fs: "FindAndSet m = (s, m1)" and s: "0 \<le> s"
    by (rule FindAndSet_free)
  from FindAndSet_found [OF fs s]
  have nc: "NumClear m1 = NumClear m - 1" and len: "length m1 = length m"
    and sl: "s < int (length m)"
    by simp_all
  from sl s Suc.prems(3) have w: "WriteSector d s (replicate (SectorSize P) 0)
      = Ok (d[nat s := replicate (SectorSize P) 0])"
    by (simp add: WriteSector_def)
  from Suc.prems nc len
  have "\<exists>m' d' ds'. Allocate_loop k P (Suc i) m1 (d[nat s := replicate (SectorSize P) 0])
            (ds[i := s]) = Ok (m', d', ds')
          \<and> length d' = length (d[nat s := replicate (SectorSize P) 0])"
    by (intro Suc.IH) simp_all
  with fs s w Suc.prems(2) show ?case by simp
qed

lemma sdiv_nonneg: "0 \<le> x \<Longrightarrow> 0 < s \<Longrightarrow> (x::int) sdiv s = x div s"
  by (cases "x = 0") (simp_all add: signed_divide_int_def sgn_if)

lemma divRoundUp_full:
  assumes "0 < S"
  shows "divRoundUp (int (N * S)) (int S) = int N"
proof -
  from assms have S: "0 < int S" by simp
  have eq: "int (N * S) + int S - 1 = (int S - 1) + int N * int S"
    by (simp add: algebra_simps)
  have small: "(int S - 1) div int S = 0"
    using S by (intro div_pos_pos_trivial) simp_all
  have "((int S - 1) + int N * int S) div int S = (int S - 1) div int S + int N"
    using S by (simp only: div_mult_self1 [OF less_imp_neq [THEN not_sym]])
  with small eq have d: "(int (N * S) + int S - 1) div int S = int N"
    by (simp only:)
  have nn: "0 \<le> int (N * S) + int S - 1"
  proof -
    have "0 \<le> int (N * S)" by (rule of_nat_0_le_iff)
    with S show ?thesis by linarith
  qed
  show ?thesis
    unfolding divRoundUp_def by (simp only: sdiv_nonneg [OF nn S] d)
qed

lemma divRoundUp_pos:
  assumes "0 < S" and "1 \<le> nb"
  shows "1 \<le> divRoundUp nb (int S)"
proof -
  from assms have S: "0 < int S" by simp
  from assms S have le: "int S \<le> nb + int S - 1" by linarith
  from zdiv_mono1 [OF le S] S have "1 \<le> (nb + int S - 1) div int S" by simp
  moreover from le S have "0 \<le> nb + int S - 1" by linarith
  ultimately show ?thesis
    unfolding divRoundUp_def by (simp only: sdiv_nonneg [OF _ S])
qed

lemma seg_sectors_full:
  assumes "0 < SectorSize P" and "MaxFileSize P < n"
  shows "seg_bytes P n = MaxFileSize P" and "seg_sectors P n = int (NumDirect P)"
proof -
  from assms(2) show b: "seg_bytes P n = MaxFileSize P" by (simp add: seg_bytes_def)
  show "seg_sectors P n = int (NumDirect P)"
    unfolding seg_sectors_def b MaxFileSize_def by (rule divRoundUp_full [OF assms(1)])
qed

lemma Allocate_first_segment:
  assumes S: "0 < SectorSize P" and big: "MaxFileSize P < n"
    and free: "int (NumDirect P) \<le> NumClear m" and disk: "length m \<le> length d"
  obtains m1 d1 ds where
    "Allocate_loop (nat (seg_sectors P n)) P 0 m d (dataSectors (new_FileHeader P)) = Ok (m1, d1, ds)"
    and "NumClear m1 = NumClear m - int (NumDirect P)"
    and "length m1 = length m" and "length d1 = length d"
proof -
  note seg = seg_sectors_full [OF S big]
  have "\<exists>m' d' ds'. Allocate_loop (NumDirect P) P 0 m d (dataSectors (new_FileHeader P))
            = Ok (m', d', ds') \<and> length d' = length d"
    using free disk by (intro Allocate_loop_succeeds) (simp_all add: new_FileHeader_def)
  then obtain m1 d1 ds where
    loop: "Allocate_loop (NumDirect P) P 0 m d (dataSectors (new_FileHeader P)) = Ok (m1, d1, ds)"
    and ld: "length d1 = length d"
    by blast
  from Allocate_loop_NumClear [OF loop] Allocate_loop_facts [OF loop] loop ld seg that
  show ?thesis by simp
qed

section \<open>The claims\<close>

subsection \<open>C1: a failure of the successor\<close>

text \<open>
  C1 says: when \<^verbatim>\<open>requestedBytes > MaxFileSize\<close> and the recursive \<^verbatim>\<open>Allocate\<close> on the successor
  header returns 0, the outer \<^verbatim>\<open>Allocate\<close> returns 0 too. The code returns
  \<^verbatim>\<open>SectorSize + nextFileHeader->Allocate(...)\<close>, which is \<^verbatim>\<open>SectorSize\<close> then.

  Whatever the constants are: when the map has exactly \<^verbatim>\<open>NumDirect + 1\<close> free sectors and the
  request is above \<^verbatim>\<open>MaxFileSize\<close>, the first segment takes \<^verbatim>\<open>NumDirect\<close> sectors and the
  successor header the last one. The call on the successor finds no sector for its data and
  returns 0 at its first test, leaving the map and the disk as they are, so that it is the
  call on the map and the disk that the outer call returns; the outer call returns
  \<^verbatim>\<open>SectorSize\<close>.
\<close>

theorem Allocate_hides_successor_failure:
  assumes S: "0 < SectorSize P" and N: "0 < NumDirect P" and big: "MaxFileSize P < n"
    and free: "NumClear m = int (NumDirect P) + 1" and disk: "length m \<le> length d"
  shows "\<exists>h h2 m' d'.
           Allocate P (new_FileHeader P) m d n = Ok (int (SectorSize P), h, m', d')
           \<and> nextFileHeader h = Some h2
           \<and> Allocate P (new_FileHeader P) m' d' (n - MaxFileSize P) = Ok (0, h2, m', d')"
proof -
  note seg = seg_sectors_full [OF S big]
  from free have "int (NumDirect P) \<le> NumClear m" by simp
  from Allocate_first_segment [OF S big this disk] obtain m1 d1 ds where
    loop: "Allocate_loop (nat (seg_sectors P n)) P 0 m d (dataSectors (new_FileHeader P))
             = Ok (m1, d1, ds)"
    and nc: "NumClear m1 = NumClear m - int (NumDirect P)"
    by blast
  from nc free have "0 < NumClear m1" by simp
  then obtain s m2 where fs: "FindAndSet m1 = (s, m2)" and s: "0 \<le> s"
    by (rule FindAndSet_free)
  from FindAndSet_found(1) [OF fs s] nc free have full: "NumClear m2 = 0" by simp
  let ?n' = "n - MaxFileSize P"
  let ?h2 = "FileHeader (seg_bytes P ?n') (seg_sectors P ?n') (dataSectors (new_FileHeader P))
               (nextFileHeader (new_FileHeader P)) (nextFileHeaderSector (new_FileHeader P))"
  from big MaxFileSize_pos [OF S N] have "1 \<le> seg_bytes P ?n'"
    by (simp add: seg_bytes_def)
  from divRoundUp_pos [OF S this] have "1 \<le> seg_sectors P ?n'"
    by (simp add: seg_sectors_def)
  with full have inner: "Allocate P (new_FileHeader P) m2 d1 ?n' = Ok (0, ?h2, m2, d1)"
    by (simp add: Allocate_eq [of P _ m2 d1 ?n'])
  from big have "\<not> n - MaxFileSize P < INT_MIN" by (simp add: INT_MIN_def)
  moreover from free seg have "\<not> NumClear m < seg_sectors P n" by simp
  ultimately have
    "Allocate P (new_FileHeader P) m d n
       = Ok (int (SectorSize P), FileHeader (seg_bytes P n) (seg_sectors P n) ds (Some ?h2) s, m2, d1)"
    using loop big fs s inner by (simp add: Allocate_eq [of P _ m d n])
  with inner show ?thesis by auto
qed

text \<open>The run: 128-byte sectors, 29 direct sectors, 30 free sectors, a request of 3713 bytes.\<close>

theorem Allocate_hides_successor_failure_witness:
  "NumClear (free_last seed_params 30) = int (NumDirect seed_params) + 1
   \<and> MaxFileSize seed_params < 3713
   \<and> int (SectorSize seed_params) = 128
   \<and> (\<exists>h h2 m' d'.
          Allocate seed_params (new_FileHeader seed_params) (free_last seed_params 30)
            (blank_disk seed_params) 3713 = Ok (int (SectorSize seed_params), h, m', d')
          \<and> nextFileHeader h = Some h2
          \<and> Allocate seed_params (new_FileHeader seed_params) m' d'
               (3713 - MaxFileSize seed_params) = Ok (0, h2, m', d'))"
proof -
  have S: "0 < SectorSize seed_params" and N: "0 < NumDirect seed_params"
    and big: "MaxFileSize seed_params < 3713"
    and free: "NumClear (free_last seed_params 30) = int (NumDirect seed_params) + 1"
    and disk: "length (free_last seed_params 30) \<le> length (blank_disk seed_params)"
    and size: "int (SectorSize seed_params) = 128"
    by code_simp+
  from Allocate_hides_successor_failure [OF S N big free disk] big free size
  show ?thesis by blast
qed

subsection \<open>C2: Create followed by Remove\<close>

text \<open>
  C2 says: after \<^verbatim>\<open>Create(p, n, false)\<close> has succeeded, \<^verbatim>\<open>Remove(false, p)\<close> gives every sector
  back, and \<^verbatim>\<open>Deallocate\<close> clears the header sector of each successor. \<^verbatim>\<open>Deallocate\<close> clears
  the data sectors of every segment and nothing else, and \<^verbatim>\<open>Remove\<close> clears the sector of the
  first header only.

  The run: on the formatted disk the sectors 0 to 4 are in use. \<^verbatim>\<open>Create("/a", 3713, false)\<close>
  succeeds; the header of the file is in sector 5 and its successor in sector 35. After
  \<^verbatim>\<open>Remove(false, "/a")\<close> sector 35 is still marked: one free sector less than before.
\<close>

theorem Remove_leaks_successor_header:
  "bnd (formatted seed_params) (\<lambda>fs.
   bnd (used_sectors seed_params fs) (\<lambda>before.
   bnd (Create 3 seed_params fs ''/a'' 3713 False) (\<lambda>(created, fs).
   bnd (root_lookup seed_params fs ''a'') (\<lambda>sec.
   bnd (FetchFrom 3 seed_params (new_FileHeader seed_params) (synchDisk fs) sec) (\<lambda>h.
   bnd (Remove 3 seed_params fs False ''/a'') (\<lambda>(removed, fs).
   bnd (used_sectors seed_params fs) (\<lambda>after.
     Ok (before, created, sec, nextFileHeaderSector h, after))))))))
   = Ok ([0, 1, 2, 3, 4], True, 5, 35, [0, 1, 2, 3, 4, 35])"
  by code_simp

subsection \<open>C3: a component of the path that is not a directory\<close>

text \<open>
  C3 says: when a component of the path other than the last one does not name a
  sub-directory, \<^verbatim>\<open>FindSubDir\<close> returns \<^verbatim>\<open>NULL\<close>, and never the directory reached so far with
  that component as the name. The loop of \<^verbatim>\<open>FindSubDir\<close> runs
  \<^verbatim>\<open>while (nextToken != NULL && curDir->IsDir(token))\<close>, so it ends at such a component, and
  the code behind the loop returns the current directory with that component as the name;
  the \<^verbatim>\<open>return NULL\<close> inside the loop is reached only for a name that \<^verbatim>\<open>IsDir\<close> accepts.
  For the first component: whenever it is not a sub-directory of the root and another
  component follows, the result is the root directory file and the first component.
\<close>

theorem FindSubDir_unresolved_component_returned:
  assumes "tokens path = t # t' # rest"
    and "Directory_FetchFrom P (new_Directory (NumDirEntries P)) (directoryFile fs) (synchDisk fs)
           = Ok root"
    and "\<not> Directory_IsDir P root t"
  shows "FindSubDir fuel P fs path = Ok (Some (directoryFile fs, t))"
  using assms by (simp add: FindSubDir_def)

theorem FindSubDir_unresolved_component_witness:
  "\<exists>fs. formatted seed_params = Ok fs
     \<and> tokens ''/x/y'' = [''x'', ''y'']
     \<and> root_lookup seed_params fs ''x'' = Ok (- 1)
     \<and> FindSubDir 3 seed_params fs ''/x/y'' = Ok (Some (directoryFile fs, ''x''))"
proof -
  have "case formatted seed_params of
          Ok fs \<Rightarrow>
            (case Directory_FetchFrom seed_params (new_Directory (NumDirEntries seed_params))
                    (directoryFile fs) (synchDisk fs) of
               Ok root \<Rightarrow> \<not> Directory_IsDir seed_params root ''x''
                          \<and> Directory_Find seed_params root ''x'' = - 1
             | _ \<Rightarrow> False)
        | _ \<Rightarrow> False"
    by code_simp
  then obtain fs root where fs: "formatted seed_params = Ok fs"
    and root: "Directory_FetchFrom seed_params (new_Directory (NumDirEntries seed_params))
                 (directoryFile fs) (synchDisk fs) = Ok root"
    and nodir: "\<not> Directory_IsDir seed_params root ''x''"
    and nofile: "Directory_Find seed_params root ''x'' = - 1"
    by (auto split: res.splits)
  have toks: "tokens ''/x/y'' = ''x'' # ''y'' # []" by code_simp
  from FindSubDir_unresolved_component_returned [OF toks root nodir, of 3]
  have "FindSubDir 3 seed_params fs ''/x/y'' = Ok (Some (directoryFile fs, ''x''))" .
  with fs root nofile toks show ?thesis by (auto simp: root_lookup_def)
qed

subsection \<open>C4: the value that Remove returns\<close>

text \<open>
  C4 says: \<^verbatim>\<open>Remove\<close> returns true exactly when it succeeds. The comment of the function says
  so too (\<^verbatim>\<open>Return TRUE if the file was deleted\<close>), but its last statement is
  \<^verbatim>\<open>return FALSE\<close>, as are its two early returns: whenever \<^verbatim>\<open>Remove\<close> returns, it returns
  \<^verbatim>\<open>FALSE\<close>. In the run the file \<^verbatim>\<open>/a\<close> is in the root directory before the call and is not
  after it.
\<close>

theorem Remove_returns_FALSE:
  assumes "Remove fuel P fs recursion path = Ok (b, fs')"
  shows "b = False"
proof (cases fuel)
  case 0
  with assms show ?thesis by simp
next
  case (Suc n)
  with assms show ?thesis
    by (auto simp: Let_def bnd_Ok_iff split_beta split: if_splits option.splits)
qed

theorem Remove_returns_FALSE_witness:
  "\<exists>fs fs'. root_lookup seed_params fs ''a'' = Ok 5
     \<and> Remove 3 seed_params fs False ''/a'' = Ok (False, fs')
     \<and> root_lookup seed_params fs' ''a'' = Ok (- 1)"
proof -
  have "case bnd (formatted seed_params) (\<lambda>fs. Create 3 seed_params fs ''/a'' 100 False) of
          Ok (created, fs) \<Rightarrow>
            root_lookup seed_params fs ''a'' = Ok 5
            \<and> (case Remove 3 seed_params fs False ''/a'' of
                 Ok (b, fs') \<Rightarrow> root_lookup seed_params fs' ''a'' = Ok (- 1)
               | _ \<Rightarrow> False)
        | _ \<Rightarrow> False"
    by code_simp
  from res_case_Ok [OF this] obtain created fs
    where before: "root_lookup seed_params fs ''a'' = Ok 5"
      and inner: "case Remove 3 seed_params fs False ''/a'' of
                    Ok (b, fs') \<Rightarrow> root_lookup seed_params fs' ''a'' = Ok (- 1)
                  | Abort e \<Rightarrow> False | Diverge \<Rightarrow> False"
    by auto
  from res_case_Ok [OF inner] obtain b fs'
    where run: "Remove 3 seed_params fs False ''/a'' = Ok (b, fs')"
      and after: "root_lookup seed_params fs' ''a'' = Ok (- 1)"
    by auto
  from Remove_returns_FALSE [OF run] before run after show ?thesis by blast
qed

subsection \<open>C5: a call of Create that fails\<close>

text \<open>
  C5 says: when \<^verbatim>\<open>Create\<close> returns failure, the bitmap file and the directory file on the disk
  are as they were before the call. Every path of \<^verbatim>\<open>Create\<close> that returns \<^verbatim>\<open>FALSE\<close> ends before
  the three calls of \<^verbatim>\<open>WriteBack\<close>, and \<^verbatim>\<open>Allocate\<close> returns 0 only at its first test, before
  it writes a sector: the whole disk is unchanged, and so is the rest of the state.
\<close>

theorem Create_failure_leaves_disk:
  assumes "Create fuel P fs path initialSize dir = Ok (False, fs')" and "0 < SectorSize P"
  shows "fs' = fs"
  using assms unfolding Create_def Let_def
  by (auto simp: bnd_Ok_iff split_beta split: if_splits option.splits dest!: Allocate_zero_disk)

text \<open>
  The run: a disk of five sectors has one free sector once it is formatted. \<^verbatim>\<open>Create\<close> takes
  it for the header, \<^verbatim>\<open>Allocate\<close> finds none for the data and returns 0, and \<^verbatim>\<open>Create\<close> fails.
\<close>

theorem Create_failure_leaves_disk_witness:
  "\<exists>fs fs'. formatted (small_params\<lparr>NumSectors := 5\<rparr>) = Ok fs
     \<and> free_sectors (small_params\<lparr>NumSectors := 5\<rparr>) fs = Ok 1
     \<and> Create 3 (small_params\<lparr>NumSectors := 5\<rparr>) fs ''/a'' 1 False = Ok (False, fs')
     \<and> fs' = fs"
proof -
  let ?P = "small_params\<lparr>NumSectors := 5\<rparr>"
  have "case formatted ?P of
          Ok fs \<Rightarrow>
            free_sectors ?P fs = Ok 1
            \<and> (case Create 3 ?P fs ''/a'' 1 False of
                 Ok (created, fs') \<Rightarrow> \<not> created
               | Abort e \<Rightarrow> False | Diverge \<Rightarrow> False)
        | Abort e \<Rightarrow> False | Diverge \<Rightarrow> False"
    by code_simp
  from res_case_Ok [OF this] obtain fs
    where fs: "formatted ?P = Ok fs" and free: "free_sectors ?P fs = Ok 1"
      and inner: "case Create 3 ?P fs ''/a'' 1 False of
                    Ok (created, fs') \<Rightarrow> \<not> created
                  | Abort e \<Rightarrow> False | Diverge \<Rightarrow> False"
    by auto
  from res_case_Ok [OF inner] obtain fs'
    where run: "Create 3 ?P fs ''/a'' 1 False = Ok (False, fs')"
    by auto
  have "0 < SectorSize ?P" by (simp add: small_params_def)
  from Create_failure_leaves_disk [OF run this] fs free run show ?thesis by blast
qed

subsection \<open>C6: the indices of the table of open files\<close>

text \<open>
  C6 says: \<^verbatim>\<open>Open\<close> reads and writes \<^verbatim>\<open>fileDescriptorTable\<close> only at indices that the constructor
  has set to \<^verbatim>\<open>NULL\<close>, that is below \<^verbatim>\<open>MAXFILENUM\<close>. The constructor runs over
  \<^verbatim>\<open>0 .. MAXFILENUM - 1\<close>, the loop of \<^verbatim>\<open>Open\<close> over \<^verbatim>\<open>1 .. MAXFILENUM\<close>.

  The run, with \<^verbatim>\<open>MAXFILENUM = 3\<close>: the constructor formats the disk, \<^verbatim>\<open>/a\<close> is created and
  opened three times. The third call finds the slots 1 and 2 taken, reads slot 3 and, as
  the memory behind the table happens to hold \<^verbatim>\<open>NULL\<close> there, stores the file in it.
\<close>

theorem Open_uses_slot_MAXFILENUM:
  "bnd (formatted seed_params) (\<lambda>fs.
   bnd (Create 3 seed_params fs ''/a'' 100 False) (\<lambda>(created, fs).
   bnd (Open 3 seed_params fs ''/a'') (\<lambda>(r1, seen1, fs).
   bnd (Open 3 seed_params fs ''/a'') (\<lambda>(r2, seen2, fs).
   bnd (Open 3 seed_params fs ''/a'') (\<lambda>(r3, seen3, fs).
     Ok (MAXFILENUM seed_params, snd r1, seen1, snd r2, seen2, snd r3, seen3))))))
   = Ok (3, 1, [1], 2, [1, 2], 3, [1, 2, 3])"
  by code_simp

subsection \<open>C7: when a successor is created\<close>

text \<open>
  C7 says: \<^verbatim>\<open>Allocate\<close> creates a successor header exactly when \<^verbatim>\<open>requestedBytes\<close> is greater
  than \<^verbatim>\<open>MaxFileSize\<close>; a request of \<^verbatim>\<open>MaxFileSize\<close> gives one segment, with
  \<^verbatim>\<open>nextFileHeaderSector = -1\<close>, and a request of \<^verbatim>\<open>MaxFileSize + 1\<close> gives two segments, of
  \<^verbatim>\<open>MaxFileSize\<close> bytes and of one byte. This is about a call on a new header that allocates,
  that is, returns and does not return 0.
\<close>

theorem Allocate_chains_iff_above_MaxFileSize:
  assumes ok: "Allocate P (new_FileHeader P) m d n = Ok (r, h, m', d')"
    and r: "r \<noteq> 0" and P: "0 < SectorSize P" "0 < NumDirect P"
  shows "(nextFileHeader h \<noteq> None \<longleftrightarrow> MaxFileSize P < n)
       \<and> (nextFileHeaderSector h \<noteq> - 1 \<longleftrightarrow> MaxFileSize P < n)
       \<and> (n = MaxFileSize P \<longrightarrow> map numBytes (segments h) = [MaxFileSize P])
       \<and> (n = MaxFileSize P + 1 \<longrightarrow> map numBytes (segments h) = [MaxFileSize P, 1])"
  using ok
proof (cases rule: Allocate_Ok_cases)
  case full
  with r show ?thesis by simp
next
  case (last ds)
  then show ?thesis by (simp add: new_FileHeader_def seg_bytes_def)
next
  case (chain m1 d1 ds s m2 r2 h2)
  have "n = MaxFileSize P + 1 \<longrightarrow> map numBytes (segments h) = [MaxFileSize P, 1]"
  proof
    assume n: "n = MaxFileSize P + 1"
    with chain(6) have inner: "Allocate P (new_FileHeader P) m2 d1 1 = Ok (r2, h2, m', d')"
      by simp
    from MaxFileSize_pos [OF P] have "\<not> MaxFileSize P < 1" by simp
    from Allocate_small_single [OF inner this]
    have "nextFileHeader h2 = None" "numBytes h2 = 1" by simp_all
    then have "map numBytes (segments h2) = [1]" by (cases h2) simp
    with chain(8) chain(2) show "map numBytes (segments h) = [MaxFileSize P, 1]"
      by (simp add: seg_bytes_def)
  qed
  with chain show ?thesis by simp
qed

theorem Allocate_chains_iff_above_MaxFileSize_witness:
  "\<exists>r h m' d'.
     Allocate small_params (new_FileHeader small_params) (free_last small_params 8)
       (blank_disk small_params) (MaxFileSize small_params + 1) = Ok (r, h, m', d')
     \<and> r \<noteq> 0 \<and> nextFileHeader h \<noteq> None \<and> nextFileHeaderSector h \<noteq> - 1
     \<and> map numBytes (segments h) = [MaxFileSize small_params, 1]"
proof -
  let ?P = small_params
  have "case Allocate ?P (new_FileHeader ?P) (free_last ?P 8) (blank_disk ?P)
               (MaxFileSize ?P + 1) of
          Ok (r, h, m', d') \<Rightarrow> r \<noteq> 0
        | Abort e \<Rightarrow> False | Diverge \<Rightarrow> False"
    by code_simp
  from res_case_Ok [OF this] obtain r h m' d'
    where run: "Allocate ?P (new_FileHeader ?P) (free_last ?P 8) (blank_disk ?P)
                  (MaxFileSize ?P + 1) = Ok (r, h, m', d')"
      and r: "r \<noteq> 0"
    by auto
  have P: "0 < SectorSize ?P" "0 < NumDirect ?P" by (simp_all add: small_params_def)
  from Allocate_chains_iff_above_MaxFileSize [OF run r P] run r show ?thesis by auto
qed

subsection \<open>C8: the assertions of Allocate\<close>

text \<open>
  C8 says: once the test \<^verbatim>\<open>NumClear() >= numSectors\<close> of \<^verbatim>\<open>Allocate\<close> has passed, no assertion
  of the call can fail, the one on the header sector of the successor included. The test
  counts the data sectors of the segment only.

  Whatever the constants are: when the map has exactly \<^verbatim>\<open>NumDirect\<close> free sectors and the
  request is above \<^verbatim>\<open>MaxFileSize\<close>, the test passes, the loop takes every free sector, and
  \<^verbatim>\<open>ASSERT(nextFileHeaderSector >= 0)\<close> fails.
\<close>

theorem Allocate_assertion_fails_after_check:
  assumes S: "0 < SectorSize P" and big: "MaxFileSize P < n"
    and free: "NumClear m = int (NumDirect P)" and disk: "length m \<le> length d"
  shows "\<not> NumClear m < seg_sectors P n
       \<and> Allocate P (new_FileHeader P) m d n = Abort AssertFailed"
proof -
  note seg = seg_sectors_full [OF S big]
  from free have "int (NumDirect P) \<le> NumClear m" by simp
  from Allocate_first_segment [OF S big this disk] obtain m1 d1 ds where
    loop: "Allocate_loop (nat (seg_sectors P n)) P 0 m d (dataSectors (new_FileHeader P))
             = Ok (m1, d1, ds)"
    and nc: "NumClear m1 = NumClear m - int (NumDirect P)"
    by blast
  from nc free have "FindAndSet m1 = (- 1, m1)" by (intro FindAndSet_full) simp
  moreover from big have "\<not> n - MaxFileSize P < INT_MIN" by (simp add: INT_MIN_def)
  moreover from free seg have check: "\<not> NumClear m < seg_sectors P n" by simp
  ultimately have "Allocate P (new_FileHeader P) m d n = Abort AssertFailed"
    using loop big by (simp add: Allocate_eq [of P _ m d n])
  with check show ?thesis by simp
qed

text \<open>The run: 128-byte sectors, 29 direct sectors, 29 free sectors, a request of 3713 bytes.\<close>

theorem Allocate_assertion_fails_after_check_witness:
  "NumClear (free_last seed_params 29) = int (NumDirect seed_params)
   \<and> MaxFileSize seed_params < 3713
   \<and> \<not> NumClear (free_last seed_params 29) < seg_sectors seed_params 3713
   \<and> Allocate seed_params (new_FileHeader seed_params) (free_last seed_params 29)
        (blank_disk seed_params) 3713 = Abort AssertFailed"
proof -
  have S: "0 < SectorSize seed_params"
    and big: "MaxFileSize seed_params < 3713"
    and free: "NumClear (free_last seed_params 29) = int (NumDirect seed_params)"
    and disk: "length (free_last seed_params 29) \<le> length (blank_disk seed_params)"
    by code_simp+
  from Allocate_assertion_fails_after_check [OF S big free disk] big free
  show ?thesis by blast
qed

subsection \<open>C9: the segments that are not the last\<close>

text \<open>
  C9 says: in every chain that \<^verbatim>\<open>Allocate\<close> produces, and that \<^verbatim>\<open>FetchFrom\<close> reproduces after
  \<^verbatim>\<open>WriteBack\<close>, every segment whose \<^verbatim>\<open>nextFileHeaderSector\<close> is not \<open>-1\<close> holds \<^verbatim>\<open>MaxFileSize\<close>
  bytes. The chain is the one that a call of \<^verbatim>\<open>Allocate\<close> on a new header leaves, whatever
  the call returns. It is written to a sector that is marked in the map given to
  \<^verbatim>\<open>Allocate\<close>, as \<^verbatim>\<open>Create\<close> and the constructor do, and read back with as many steps as the
  chain has segments; the request and the constants are in the range of \<^verbatim>\<open>int\<close>.
\<close>

theorem Allocate_nonterminal_segments_full:
  assumes "Allocate P (new_FileHeader P) m d n = Ok (r, h, m', d')"
  shows "nonterminal_full P h
     \<and> (\<forall>sec d2.
          is_int32 n \<and> 0 < SectorSize P \<and> MaxFileSize P + int (SectorSize P) \<le> INT_MAX
          \<and> int (length m) \<le> INT_MAX \<and> Test m sec = Ok True
          \<and> WriteBack P h d' sec = Ok d2
          \<longrightarrow> (\<exists>h2. FetchFrom (length (segments h)) P (new_FileHeader P) d2 sec = Ok h2
                    \<and> nonterminal_full P h2))"
proof (intro conjI allI impI)
  show full: "nonterminal_full P h"
    using assms by (rule Allocate_nonterminal_full)
  fix sec d2
  assume a: "is_int32 n \<and> 0 < SectorSize P \<and> MaxFileSize P + int (SectorSize P) \<le> INT_MAX
          \<and> int (length m) \<le> INT_MAX \<and> Test m sec = Ok True
          \<and> WriteBack P h d' sec = Ok d2"
  then have "FetchFrom (length (segments h)) P (new_FileHeader P) d2 sec = Ok h"
    using Allocate_WriteBack_FetchFrom [OF assms, of sec d2] by blast
  with full
  show "\<exists>h2. FetchFrom (length (segments h)) P (new_FileHeader P) d2 sec = Ok h2
           \<and> nonterminal_full P h2"
    by blast
qed

theorem Allocate_nonterminal_segments_full_witness:
  "\<exists>r h m' d' d2 h2.
     Allocate small_params (new_FileHeader small_params) (free_last small_params 8)
       (blank_disk small_params) 40 = Ok (r, h, m', d')
     \<and> length (segments h) = 3 \<and> nonterminal_full small_params h
     \<and> WriteBack small_params h d' 0 = Ok d2
     \<and> FetchFrom 3 small_params (new_FileHeader small_params) d2 0 = Ok h2
     \<and> nonterminal_full small_params h2"
proof -
  let ?P = small_params
  let ?m = "free_last small_params 8"
  have "case Allocate ?P (new_FileHeader ?P) ?m (blank_disk ?P) 40 of
          Ok (r, h, m', d') \<Rightarrow>
            length (segments h) = 3
            \<and> (case WriteBack ?P h d' 0 of Ok d2 \<Rightarrow> True
                | Abort e \<Rightarrow> False | Diverge \<Rightarrow> False)
        | Abort e \<Rightarrow> False | Diverge \<Rightarrow> False"
    by code_simp
  from res_case_Ok [OF this] obtain r h m' d'
    where run: "Allocate ?P (new_FileHeader ?P) ?m (blank_disk ?P) 40 = Ok (r, h, m', d')"
      and len: "length (segments h) = 3"
      and inner: "case WriteBack ?P h d' 0 of Ok d2 \<Rightarrow> True
                  | Abort e \<Rightarrow> False | Diverge \<Rightarrow> False"
    by auto
  from res_case_Ok [OF inner] obtain d2 where wb: "WriteBack ?P h d' 0 = Ok d2"
    by auto
  have side: "is_int32 40 \<and> 0 < SectorSize ?P \<and> MaxFileSize ?P + int (SectorSize ?P) \<le> INT_MAX
          \<and> int (length ?m) \<le> INT_MAX \<and> Test ?m 0 = Ok True"
    by code_simp
  from Allocate_nonterminal_segments_full [OF run] side wb len
  obtain h2 where "nonterminal_full ?P h"
    and "FetchFrom 3 ?P (new_FileHeader ?P) d2 0 = Ok h2" and "nonterminal_full ?P h2"
    by auto
  with run len wb show ?thesis by blast
qed

subsection \<open>C10: WriteBack followed by FetchFrom\<close>

text \<open>
  C10 says: for every chain of headers in memory, \<^verbatim>\<open>WriteBack(sector)\<close> followed by
  \<^verbatim>\<open>FetchFrom(sector)\<close> on a new header gives a chain with the same \<^verbatim>\<open>numBytes\<close>, \<^verbatim>\<open>numSectors\<close>,
  \<^verbatim>\<open>nextFileHeaderSector\<close> and \<^verbatim>\<open>dataSectors\<close> in every segment. A chain in memory is one that
  the code has built (\<open>wf_chain\<close>), and each of its headers has a sector of its own, as in
  section 3 of the specification: the sector written to and the sectors of the successors
  are pairwise distinct. \<^verbatim>\<open>FetchFrom\<close> then returns, within as many steps as the chain has
  segments, and returns the chain itself.
\<close>

theorem WriteBack_FetchFrom_roundtrip:
  assumes "wf_chain P h" and "distinct (sec # succ_sectors h)"
    and "WriteBack P h d sec = Ok d'"
  shows "FetchFrom (length (segments h)) P (new_FileHeader P) d' sec = Ok h"
proof -
  have "nextFileHeader (new_FileHeader P) = None" by (simp add: new_FileHeader_def)
  from WriteBack_FetchFrom [OF assms this order_refl] show ?thesis .
qed

theorem WriteBack_FetchFrom_roundtrip_witness:
  "\<exists>d'. wf_chain small_params (FileHeader 16 1 [6] (Some (FileHeader 5 1 [8] None (- 1))) 7)
     \<and> distinct (5 # succ_sectors (FileHeader 16 1 [6] (Some (FileHeader 5 1 [8] None (- 1))) 7))
     \<and> WriteBack small_params (FileHeader 16 1 [6] (Some (FileHeader 5 1 [8] None (- 1))) 7)
          (blank_disk small_params) 5 = Ok d'
     \<and> FetchFrom 2 small_params (new_FileHeader small_params) d' 5
          = Ok (FileHeader 16 1 [6] (Some (FileHeader 5 1 [8] None (- 1))) 7)"
proof -
  let ?h = "FileHeader 16 1 [6] (Some (FileHeader 5 1 [8] None (- 1))) 7"
  have wf: "wf_chain small_params ?h" by code_simp
  have dist: "distinct (5 # succ_sectors ?h)" by code_simp
  have len: "length (segments ?h) = 2" by code_simp
  have "case WriteBack small_params ?h (blank_disk small_params) 5 of Ok d' \<Rightarrow> True
        | Abort e \<Rightarrow> False | Diverge \<Rightarrow> False"
    by code_simp
  from res_case_Ok [OF this] obtain d'
    where wb: "WriteBack small_params ?h (blank_disk small_params) 5 = Ok d'"
    by auto
  from WriteBack_FetchFrom_roundtrip [OF wf dist wb]
  have "FetchFrom (length (segments ?h)) small_params (new_FileHeader small_params) d' 5 = Ok ?h" .
  then have "FetchFrom 2 small_params (new_FileHeader small_params) d' 5 = Ok ?h"
    by (simp only: len)
  with wf dist wb show ?thesis by blast
qed

end
